theory Spec2Isabelle
  imports Main
begin

section \<open>Values exchanged with the drives\<close>

text \<open>
  \<^verbatim>\<open>type Depth = "shallow" | "deep"\<close>. The value types come from \<^verbatim>\<open>./Drive\<close>: a file is
  a stub (name only) or a deep file (name and content); a folder carries a name and an
  \<^verbatim>\<open>items\<close> object. An \<^verbatim>\<open>items\<close> object is a map from child names to children; a child
  may be a file, a name-only folder placeholder \<^verbatim>\<open>{type: "folder", name}\<close>, a folder, or
  (through a non-null assertion, which checks nothing at run time) \<^verbatim>\<open>null\<close>: \<open>None\<close>
  is "no such property", \<open>Some None\<close> is "property holding null".
\<close>

datatype depth = Shallow | Deep

datatype content = Text string | Bytes "nat list"

datatype fs_file = StubFile string | DeepFile string content

datatype node = FileNode fs_file | FolderStub string | SubFolder folder
and folder = Folder (folder_name: string) (folder_items: "string \<Rightarrow> node option option")

datatype fs_item = ItemFile fs_file | ItemFolder folder

datatype fs_error = TypeError | NotFound | BackingStoreFailure

section \<open>JavaScript strings, arrays and objects\<close>

text \<open>
  \<^verbatim>\<open>s.split(sep)\<close> for a one-character separator: the segments between the separators,
  always at least one. \<open>cur\<close> is the segment read so far.
\<close>

fun js_split_from :: "char \<Rightarrow> string \<Rightarrow> string \<Rightarrow> string list" where
  "js_split_from sep cur [] = [cur]"
| "js_split_from sep cur (c # cs) =
     (if c = sep then cur # js_split_from sep [] cs else js_split_from sep (cur @ [c]) cs)"

definition js_split :: "char \<Rightarrow> string \<Rightarrow> string list" where
  "js_split sep s = js_split_from sep [] s"

text \<open>\<^verbatim>\<open>xs.join(sep)\<close>.\<close>

fun js_join :: "string \<Rightarrow> string list \<Rightarrow> string" where
  "js_join sep [] = []"
| "js_join sep [x] = x"
| "js_join sep (x # y # ys) = x @ sep @ js_join sep (y # ys)"

text \<open>\<^verbatim>\<open>xs[i]\<close>: \<^verbatim>\<open>undefined\<close> (here \<open>None\<close>) out of range.\<close>

definition nth_opt :: "'a list \<Rightarrow> nat \<Rightarrow> 'a option" where
  "nth_opt xs i = (if i < length xs then Some (xs ! i) else None)"

text \<open>
  Reading \<^verbatim>\<open>obj[key]\<close> on an object created by the literal \<^verbatim>\<open>{}\<close> whose prototype is
  still \<^verbatim>\<open>Object.prototype\<close>: the object's own property if it has one, otherwise whatever
  \<^verbatim>\<open>Object.prototype\<close> provides under that name (a function, or for \<^verbatim>\<open>__proto__\<close> the
  prototype object itself: truthy, and not a value the program stored), otherwise
  \<^verbatim>\<open>undefined\<close>. The fourth outcome of a read, \<open>FromPrototype\<close>, is a value found on a
  prototype the program itself installed; \<open>js_get\<close> never yields it.
\<close>

definition object_prototype_keys :: "string list" where
  "object_prototype_keys =
     [''constructor'', ''hasOwnProperty'', ''isPrototypeOf'', ''propertyIsEnumerable'',
      ''toLocaleString'', ''toString'', ''valueOf'', ''__proto__'',
      ''__defineGetter__'', ''__defineSetter__'', ''__lookupGetter__'', ''__lookupSetter__'']"

datatype 'a js_prop = Own 'a | Inherited | Undefined | FromPrototype 'a

definition js_get :: "(string \<Rightarrow> 'a option) \<Rightarrow> string \<Rightarrow> 'a js_prop" where
  "js_get obj key =
     (case obj key of
        Some v \<Rightarrow> Own v
      | None \<Rightarrow> if key \<in> set object_prototype_keys then Inherited else Undefined)"

text \<open>\<^verbatim>\<open>Object.fromEntries(entries)\<close>: a later entry overwrites an earlier one.\<close>

definition fromEntries :: "(string \<times> 'a) list \<Rightarrow> (string \<Rightarrow> 'a option)" where
  "fromEntries entries = foldl (\<lambda>obj (k, v). obj(k \<mapsto> v)) Map.empty entries"

section \<open>Drives\<close>

text \<open>
  Modelled from the spec: the \<^verbatim>\<open>Drive\<close> class (\<^verbatim>\<open>./Drive\<close>) and its backing store are not
  among the sources. A drive is the record of its eight operations (spec 4.2) over the
  state \<open>'s\<close> of the storage media. Reads leave the storage unchanged and yield a value
  or \<^verbatim>\<open>null\<close> (\<open>None\<close>); every operation may fail, which rejects the promise it returned.
  Nothing else is assumed of a drive: the manager is verified for arbitrary operations.
\<close>

record 's drive =
  d_writeFile :: "string \<Rightarrow> content \<Rightarrow> 's \<Rightarrow> fs_error + 's"
  d_createFolder :: "string \<Rightarrow> 's \<Rightarrow> fs_error + 's"
  d_delete :: "string \<Rightarrow> 's \<Rightarrow> fs_error + 's"
  d_getItem :: "string \<Rightarrow> depth \<Rightarrow> 's \<Rightarrow> fs_error + fs_item option"
  d_getFolder :: "string \<Rightarrow> depth \<Rightarrow> 's \<Rightarrow> fs_error + folder option"
  d_getFile :: "string \<Rightarrow> depth \<Rightarrow> 's \<Rightarrow> fs_error + fs_file option"
  d_insert :: "string \<Rightarrow> fs_item \<Rightarrow> 's \<Rightarrow> fs_error + 's"
  d_move :: "string \<Rightarrow> string \<Rightarrow> 's \<Rightarrow> fs_error + 's"

section \<open>FsManager: routing\<close>

text \<open>
  The two drive fields of the class. \<open>mountedDrives\<close> lists the own properties of the
  object \<^verbatim>\<open>this.mountedDrives\<close> in the order \<^verbatim>\<open>Object.entries\<close> yields them; the table is
  filled by the constructor and never changed afterwards.

  The table is a plain object, and the constructor fills it by assignment,
  \<^verbatim>\<open>this.mountedDrives[name] = new Drive(...)\<close>. For the name \<^verbatim>\<open>__proto__\<close> such an
  assignment creates no own property: it makes the assigned drive the prototype of the
  table. \<open>mountedDrivesProto\<close> records that: \<open>None\<close> while the prototype is
  \<^verbatim>\<open>Object.prototype\<close>, and \<open>Some (d, members)\<close> once the drive \<open>d\<close> has taken its place.
  The \<^verbatim>\<open>Drive\<close> class is not among the sources, so what a \<^verbatim>\<open>Drive\<close> object has besides
  its eight operations is the parameter \<open>members\<close>: each further property name that is
  found on the object or on \<^verbatim>\<open>Drive.prototype\<close>, with its value. A truthy value is given
  as the record of what calling the eight operations on it does (for a value without
  such methods every call fails with a TypeError); a falsy value is \<open>None\<close>.
\<close>

record 's fs_manager =
  rootDrive :: "'s drive"
  mountedDrives :: "(string \<times> 's drive) list"
  mountedDrivesProto :: "('s drive \<times> (string \<times> 's drive option) list) option"

text \<open>The methods of a \<^verbatim>\<open>Drive\<close> the manager calls: every \<^verbatim>\<open>Drive\<close> object has them.\<close>

definition drive_operation_names :: "string list" where
  "drive_operation_names =
     [''writeFile'', ''createFolder'', ''delete'', ''getItem'', ''getFolder'', ''getFile'',
      ''insert'', ''move'']"

text \<open>
  \<^verbatim>\<open>this.mountedDrives[key] || null\<close>. With the prototype untouched this is \<open>js_get\<close> on
  the own properties. With a drive as prototype, a name that is no own property is
  looked up along the chain: \<^verbatim>\<open>__proto__\<close> is the prototype, that is the drive itself; the
  name of a drive operation is a function (truthy, and no drive); then the other
  members of the drive object (a falsy one gives \<^verbatim>\<open>null\<close>); and last
  \<^verbatim>\<open>Object.prototype\<close>, where the chain ends.
\<close>

definition mountedDrives_get :: "'s fs_manager \<Rightarrow> string \<Rightarrow> 's drive js_prop" where
  "mountedDrives_get fs key =
     (case mountedDrivesProto fs of
        None \<Rightarrow> js_get (map_of (mountedDrives fs)) key
      | Some (protoDrive, members) \<Rightarrow>
          (case map_of (mountedDrives fs) key of
             Some d \<Rightarrow> Own d
           | None \<Rightarrow>
               if key = ''__proto__'' then FromPrototype protoDrive
               else if key \<in> set drive_operation_names then Inherited
               else (case map_of members key of
                       Some (Some v) \<Rightarrow> FromPrototype v
                     | Some None \<Rightarrow> Undefined
                     | None \<Rightarrow> js_get Map.empty key)))"

text \<open>
  The constructor. \<^verbatim>\<open>this.rootDrive = new Drive(new RealFs(rootHandle))\<close>, then for each
  entry of \<^verbatim>\<open>Object.entries(mountedDrives)\<close> in turn the assignment
  \<^verbatim>\<open>this.mountedDrives[name] = new Drive(new RealFs(handle))\<close> to the table, which starts
  as \<^verbatim>\<open>{}\<close>. \<^verbatim>\<open>Drive\<close> and \<^verbatim>\<open>RealFs\<close> are not among the sources: \<open>newDrive handle\<close>
  stands for the drive made from a handle and \<open>driveMembers handle\<close> for the further
  members of that object. The argument is the list \<^verbatim>\<open>Object.entries\<close> yields, so its
  names are distinct and come in the order in which an object keeps its keys; an
  assignment to a new name adds the last own property, one to an existing name replaces
  its value, and one to \<^verbatim>\<open>__proto__\<close> replaces the prototype (the members of a \<^verbatim>\<open>Drive\<close>
  are taken to be methods and data fields, which an assignment to the table shadows).
  The last statement of the constructor starts \<^verbatim>\<open>setupDefaultDirectories\<close> without
  awaiting it (section start-up).
\<close>

fun js_assign :: "(string \<times> 'a) list \<Rightarrow> string \<Rightarrow> 'a \<Rightarrow> (string \<times> 'a) list" where
  "js_assign [] key v = [(key, v)]"
| "js_assign ((k, w) # rest) key v =
     (if k = key then (k, v) # rest else (k, w) # js_assign rest key v)"

definition assignMountedDrive ::
  "'s fs_manager \<Rightarrow> string \<Rightarrow> 's drive \<Rightarrow> (string \<times> 's drive option) list \<Rightarrow> 's fs_manager" where
  "assignMountedDrive fs name d members =
     (if name = ''__proto__'' then fs\<lparr>mountedDrivesProto := Some (d, members)\<rparr>
      else fs\<lparr>mountedDrives := js_assign (mountedDrives fs) name d\<rparr>)"

definition new_FsManager ::
  "('h \<Rightarrow> 's drive) \<Rightarrow> ('h \<Rightarrow> (string \<times> 's drive option) list) \<Rightarrow> 'h \<Rightarrow> (string \<times> 'h) list
     \<Rightarrow> 's fs_manager" where
  "new_FsManager newDrive driveMembers rootHandle entries =
     foldl (\<lambda>fs (name, handle).
              assignMountedDrive fs name (newDrive handle) (driveMembers handle))
       \<lparr>rootDrive = newDrive rootHandle, mountedDrives = [], mountedDrivesProto = None\<rparr>
       entries"

text \<open>
  \<^verbatim>\<open>getMountedDriveForPath\<close>. \<^verbatim>\<open>parts[2]\<close> must be truthy: present and not the empty
  string. \<^verbatim>\<open>this.mountedDrives[parts[2]] || null\<close> is the stored drive, or the inherited
  value when the name is one the table inherits, or \<^verbatim>\<open>null\<close> (here \<open>Undefined\<close>).
\<close>

definition getMountedDriveForPath :: "'s fs_manager \<Rightarrow> string \<Rightarrow> 's drive js_prop" where
  "getMountedDriveForPath fs path =
     (let parts = js_split CHR ''/'' path in
      case nth_opt parts 2 of
        None \<Rightarrow> Undefined
      | Some seg \<Rightarrow>
          if nth_opt parts 1 = Some ''mnt'' \<and> seg \<noteq> []
          then mountedDrives_get fs seg
          else Undefined)"

definition getRelativePath :: "string \<Rightarrow> string" where
  "getRelativePath path = ''/'' @ js_join ''/'' (drop 3 (js_split CHR ''/'' path))"

text \<open>
  The operations. Each one is an \<^verbatim>\<open>async\<close> method: calling a method the resolved value
  does not have (\<^verbatim>\<open>mountedDrive.getFile\<close> on an inherited function) throws a TypeError,
  which rejects the returned promise. A value reached through a prototype the
  constructor installed is used like a stored drive.
\<close>

definition writeFile :: "'s fs_manager \<Rightarrow> string \<Rightarrow> content \<Rightarrow> 's \<Rightarrow> fs_error + 's" where
  "writeFile fs path c s =
     (case getMountedDriveForPath fs path of
        Own mountedDrive \<Rightarrow> d_writeFile mountedDrive (getRelativePath path) c s
      | FromPrototype mountedDrive \<Rightarrow> d_writeFile mountedDrive (getRelativePath path) c s
      | Inherited \<Rightarrow> Inl TypeError
      | Undefined \<Rightarrow> d_writeFile (rootDrive fs) path c s)"

definition createFolder :: "'s fs_manager \<Rightarrow> string \<Rightarrow> 's \<Rightarrow> fs_error + 's" where
  "createFolder fs path s =
     (case getMountedDriveForPath fs path of
        Own mountedDrive \<Rightarrow> d_createFolder mountedDrive (getRelativePath path) s
      | FromPrototype mountedDrive \<Rightarrow> d_createFolder mountedDrive (getRelativePath path) s
      | Inherited \<Rightarrow> Inl TypeError
      | Undefined \<Rightarrow> d_createFolder (rootDrive fs) path s)"

definition delete :: "'s fs_manager \<Rightarrow> string \<Rightarrow> 's \<Rightarrow> fs_error + 's" where
  "delete fs path s =
     (case getMountedDriveForPath fs path of
        Own mountedDrive \<Rightarrow> d_delete mountedDrive (getRelativePath path) s
      | FromPrototype mountedDrive \<Rightarrow> d_delete mountedDrive (getRelativePath path) s
      | Inherited \<Rightarrow> Inl TypeError
      | Undefined \<Rightarrow> d_delete (rootDrive fs) path s)"

definition getItem :: "'s fs_manager \<Rightarrow> string \<Rightarrow> depth \<Rightarrow> 's \<Rightarrow> fs_error + fs_item option" where
  "getItem fs path dp s =
     (case getMountedDriveForPath fs path of
        Own mountedDrive \<Rightarrow> d_getItem mountedDrive (getRelativePath path) dp s
      | FromPrototype mountedDrive \<Rightarrow> d_getItem mountedDrive (getRelativePath path) dp s
      | Inherited \<Rightarrow> Inl TypeError
      | Undefined \<Rightarrow> d_getItem (rootDrive fs) path dp s)"

text \<open>
  The loop of the deep branch of \<^verbatim>\<open>getFolder("/")\<close>:
  \<^verbatim>\<open>mntFolder.items[name] = (await drive.getFolder("/", "deep"))!\<close> for each entry in
  turn; the first failing read rejects the whole call. A \<^verbatim>\<open>null\<close> read is stored as it is.
\<close>

fun deepMntItems ::
  "(string \<times> 's drive) list \<Rightarrow> 's \<Rightarrow> (string \<Rightarrow> node option option)
     \<Rightarrow> fs_error + (string \<Rightarrow> node option option)" where
  "deepMntItems [] s items = Inr items"
| "deepMntItems ((name, drive) # rest) s items =
     (case d_getFolder drive ''/'' Deep s of
        Inl e \<Rightarrow> Inl e
      | Inr r \<Rightarrow> deepMntItems rest s (items(name \<mapsto> map_option SubFolder r)))"

text \<open>The shallow branch: one name-only placeholder per key of the mount table.\<close>

definition shallowMntItems :: "(string \<times> 's drive) list \<Rightarrow> (string \<Rightarrow> node option option)" where
  "shallowMntItems mounts =
     fromEntries (map (\<lambda>name. (name, Some (FolderStub name))) (map fst mounts))"

definition getFolder :: "'s fs_manager \<Rightarrow> string \<Rightarrow> depth \<Rightarrow> 's \<Rightarrow> fs_error + folder option" where
  "getFolder fs path dp s =
     (if path = ''/'' then
        (case d_getFolder (rootDrive fs) path dp s of
           Inl e \<Rightarrow> Inl e
         | Inr None \<Rightarrow> Inr None
         | Inr (Some rootFolder) \<Rightarrow>
             if length (map fst (mountedDrives fs)) > 0 then
               (case (if dp = Deep then deepMntItems (mountedDrives fs) s Map.empty
                      else Inr (shallowMntItems (mountedDrives fs))) of
                  Inl e \<Rightarrow> Inl e
                | Inr items \<Rightarrow>
                    Inr (Some (Folder (folder_name rootFolder)
                      ((folder_items rootFolder)
                         (''mnt'' \<mapsto> Some (SubFolder (Folder ''mnt'' items)))))))
             else Inr (Some rootFolder))
      else
        (case getMountedDriveForPath fs path of
           Own mountedDrive \<Rightarrow> d_getFolder mountedDrive (getRelativePath path) dp s
         | FromPrototype mountedDrive \<Rightarrow>
             d_getFolder mountedDrive (getRelativePath path) dp s
         | Inherited \<Rightarrow> Inl TypeError
         | Undefined \<Rightarrow> d_getFolder (rootDrive fs) path dp s))"

definition getFile :: "'s fs_manager \<Rightarrow> string \<Rightarrow> depth \<Rightarrow> 's \<Rightarrow> fs_error + fs_file option" where
  "getFile fs path dp s =
     (case getMountedDriveForPath fs path of
        Own mountedDrive \<Rightarrow> d_getFile mountedDrive (getRelativePath path) dp s
      | FromPrototype mountedDrive \<Rightarrow> d_getFile mountedDrive (getRelativePath path) dp s
      | Inherited \<Rightarrow> Inl TypeError
      | Undefined \<Rightarrow> d_getFile (rootDrive fs) path dp s)"

definition insert_item :: "'s fs_manager \<Rightarrow> string \<Rightarrow> fs_item \<Rightarrow> 's \<Rightarrow> fs_error + 's" where
  "insert_item fs path item s =
     (case getMountedDriveForPath fs path of
        Own mountedDrive \<Rightarrow> d_insert mountedDrive (getRelativePath path) item s
      | FromPrototype mountedDrive \<Rightarrow> d_insert mountedDrive (getRelativePath path) item s
      | Inherited \<Rightarrow> Inl TypeError
      | Undefined \<Rightarrow> d_insert (rootDrive fs) path item s)"

definition move :: "'s fs_manager \<Rightarrow> string \<Rightarrow> string \<Rightarrow> 's \<Rightarrow> fs_error + 's" where
  "move fs oldPath newPath s =
     (case getMountedDriveForPath fs oldPath of
        Own mountedDrive \<Rightarrow>
          d_move mountedDrive (getRelativePath oldPath) (getRelativePath newPath) s
      | FromPrototype mountedDrive \<Rightarrow>
          d_move mountedDrive (getRelativePath oldPath) (getRelativePath newPath) s
      | Inherited \<Rightarrow> Inl TypeError
      | Undefined \<Rightarrow> d_move (rootDrive fs) oldPath newPath s)"

section \<open>FsManager: start-up\<close>

text \<open>
  The four constants imported from \<^verbatim>\<open>@/lib/filesystem/defaultFileSystem\<close>, which is not
  among the sources: they are parameters of the model.
\<close>

record well_known =
  SYSTEM_PATH :: string
  PROGRAMS_PATH :: string
  USER_PATH :: string
  REGISTRY_PATH :: string

text \<open>The writing calls a run of \<^verbatim>\<open>setupDefaultDirectories\<close> makes, in order.\<close>

datatype fs_call = CreateFolderCall string | WriteFileCall string content

text \<open>\<^verbatim>\<open>for (const dir of defaultDirs) { ... }\<close>\<close>

fun setupDirsLoop ::
  "'s fs_manager \<Rightarrow> string list \<Rightarrow> 's \<Rightarrow> fs_error + (fs_call list \<times> 's)" where
  "setupDirsLoop fs [] s = Inr ([], s)"
| "setupDirsLoop fs (dir # dirs) s =
     (case getFolder fs dir Shallow s of
        Inl e \<Rightarrow> Inl e
      | Inr (Some exists) \<Rightarrow> setupDirsLoop fs dirs s
      | Inr None \<Rightarrow>
          (case createFolder fs dir s of
             Inl e \<Rightarrow> Inl e
           | Inr s' \<Rightarrow>
               (case setupDirsLoop fs dirs s' of
                  Inl e \<Rightarrow> Inl e
                | Inr (calls, s'') \<Rightarrow> Inr (CreateFolderCall dir # calls, s''))))"

definition setupDefaultDirectories ::
  "'s fs_manager \<Rightarrow> well_known \<Rightarrow> 's \<Rightarrow> fs_error + (fs_call list \<times> 's)" where
  "setupDefaultDirectories fs wk s =
     (case setupDirsLoop fs [SYSTEM_PATH wk, PROGRAMS_PATH wk, USER_PATH wk] s of
        Inl e \<Rightarrow> Inl e
      | Inr (calls, s1) \<Rightarrow>
          (case getFile fs (REGISTRY_PATH wk) Shallow s1 of
             Inl e \<Rightarrow> Inl e
           | Inr (Some registryExists) \<Rightarrow> Inr (calls, s1)
           | Inr None \<Rightarrow>
               (case writeFile fs (REGISTRY_PATH wk) (Text ''{}'') s1 of
                  Inl e \<Rightarrow> Inl e
                | Inr s2 \<Rightarrow>
                    Inr (calls @ [WriteFileCall (REGISTRY_PATH wk) (Text ''{}'')], s2))))"

text \<open>\<^verbatim>\<open>return !!system\<close>: an object is truthy, \<^verbatim>\<open>null\<close> is not.\<close>

definition hasSystemData :: "'s fs_manager \<Rightarrow> well_known \<Rightarrow> 's \<Rightarrow> fs_error + bool" where
  "hasSystemData fs wk s =
     (case getFolder fs (SYSTEM_PATH wk) Shallow s of
        Inl e \<Rightarrow> Inl e
      | Inr system \<Rightarrow> Inr (system \<noteq> None))"

section \<open>FsManager: live views\<close>

text \<open>
  An atom is an object with an identity; its read function is the closure
  \<^verbatim>\<open>getFolder(path, depth)\<close> or \<^verbatim>\<open>getFile(path, "deep")\<close>, and its \<^verbatim>\<open>onMount\<close> handler
  closes over the same path and over the map the atom was stored in.
\<close>

datatype atom_read = ReadFolder string depth | ReadFile string

record atom =
  atom_id :: nat
  atom_read :: atom_read

text \<open>An interval registered with \<^verbatim>\<open>setInterval(callback, delay)\<close>: its delay in
  milliseconds and the atom whose \<^verbatim>\<open>set()\<close> the callback calls.\<close>

record timer =
  delay :: nat
  refreshes :: nat

text \<open>
  The three atom maps of the class, the running intervals of the host, the counters
  that give new objects and new intervals their identities, and the atom store's
  bookkeeping: for each mounted atom, the number of its subscribers and the interval
  identifier that the cleanup function returned by \<^verbatim>\<open>onMount\<close> closes over.
\<close>

record live_state =
  shallowAtoms :: "string \<Rightarrow> atom option"
  deepAtoms :: "string \<Rightarrow> atom option"
  fileAtoms :: "string \<Rightarrow> atom option"
  next_atom :: nat
  timers :: "nat \<Rightarrow> timer option"
  next_timer :: nat
  mounted :: "nat \<Rightarrow> (nat \<times> nat) option"

definition init_live :: live_state where
  "init_live = \<lparr>shallowAtoms = Map.empty, deepAtoms = Map.empty, fileAtoms = Map.empty,
     next_atom = 0, timers = Map.empty, next_timer = 0, mounted = Map.empty\<rparr>"

text \<open>
  \<^verbatim>\<open>getFolderAtom\<close>: \<^verbatim>\<open>if (!atomsMap[path]) { ...; atomsMap[path] = atom }\<close> and
  \<^verbatim>\<open>return atomsMap[path]\<close>. No interval is started here.
\<close>

definition getFolderAtom :: "string \<Rightarrow> depth \<Rightarrow> live_state \<Rightarrow> atom js_prop \<times> live_state" where
  "getFolderAtom path dp st =
     (let atomsMap = (if dp = Shallow then shallowAtoms st else deepAtoms st) in
      case js_get atomsMap path of
        Undefined \<Rightarrow>
          (let atom = \<lparr>atom_id = next_atom st, atom_read = ReadFolder path dp\<rparr>;
               st' = (if dp = Shallow
                      then st\<lparr>shallowAtoms := (shallowAtoms st)(path \<mapsto> atom)\<rparr>
                      else st\<lparr>deepAtoms := (deepAtoms st)(path \<mapsto> atom)\<rparr>)
           in (Own atom, st'\<lparr>next_atom := Suc (next_atom st)\<rparr>))
      | found \<Rightarrow> (found, st))"

definition getFileAtom :: "string \<Rightarrow> live_state \<Rightarrow> atom js_prop \<times> live_state" where
  "getFileAtom path st =
     (case js_get (fileAtoms st) path of
        Undefined \<Rightarrow>
          (let atom = \<lparr>atom_id = next_atom st, atom_read = ReadFile path\<rparr>
           in (Own atom, st\<lparr>fileAtoms := (fileAtoms st)(path \<mapsto> atom),
                                next_atom := Suc (next_atom st)\<rparr>))
      | found \<Rightarrow> (found, st))"

text \<open>
  The \<^verbatim>\<open>onMount\<close> handler both kinds of atom are given:
  \<^verbatim>\<open>const interval = setInterval(() => { set() }, 500)\<close>; the result is the interval
  identifier its cleanup function closes over.
\<close>

definition onMount :: "atom \<Rightarrow> live_state \<Rightarrow> nat \<times> live_state" where
  "onMount a st =
     (let interval = next_timer st
      in (interval,
          st\<lparr>timers := (timers st)(interval \<mapsto> \<lparr>delay = 500, refreshes = atom_id a\<rparr>),
             next_timer := Suc (next_timer st)\<rparr>))"

text \<open>The cleanup function: \<^verbatim>\<open>clearInterval(interval); delete atomsMap[path]\<close>.\<close>

definition onUnmount :: "atom \<Rightarrow> nat \<Rightarrow> live_state \<Rightarrow> live_state" where
  "onUnmount a interval st =
     (let st' = st\<lparr>timers := (timers st)(interval := None)\<rparr>
      in case atom_read a of
           ReadFolder path dp \<Rightarrow>
             (if dp = Shallow
              then st'\<lparr>shallowAtoms := (shallowAtoms st')(path := None)\<rparr>
              else st'\<lparr>deepAtoms := (deepAtoms st')(path := None)\<rparr>)
         | ReadFile path \<Rightarrow> st'\<lparr>fileAtoms := (fileAtoms st')(path := None)\<rparr>)"

text \<open>
  The atom library (jotai, a dependency) calls \<^verbatim>\<open>onMount\<close> when an atom gains its first
  subscriber in the store and the function \<^verbatim>\<open>onMount\<close> returned when it loses its last
  one; further subscribers only change the count.
\<close>

definition subscribe :: "atom \<Rightarrow> live_state \<Rightarrow> live_state" where
  "subscribe a st =
     (case mounted st (atom_id a) of
        None \<Rightarrow>
          (let (interval, st') = onMount a st
           in st'\<lparr>mounted := (mounted st')(atom_id a \<mapsto> (1, interval))\<rparr>)
      | Some (n, interval) \<Rightarrow>
          st\<lparr>mounted := (mounted st)(atom_id a \<mapsto> (Suc n, interval))\<rparr>)"

definition unsubscribe :: "atom \<Rightarrow> live_state \<Rightarrow> live_state" where
  "unsubscribe a st =
     (case mounted st (atom_id a) of
        None \<Rightarrow> st
      | Some (n, interval) \<Rightarrow>
          if n \<le> 1
          then onUnmount a interval (st\<lparr>mounted := (mounted st)(atom_id a := None)\<rparr>)
          else st\<lparr>mounted := (mounted st)(atom_id a \<mapsto> (n - 1, interval))\<rparr>)"

text \<open>The entry a key has in the map it belongs to.\<close>

definition entry_of :: "atom_read \<Rightarrow> live_state \<Rightarrow> atom option" where
  "entry_of key st =
     (case key of
        ReadFolder path dp \<Rightarrow> (if dp = Shallow then shallowAtoms st else deepAtoms st) path
      | ReadFile path \<Rightarrow> fileAtoms st path)"

text \<open>What a consumer of the live-view interface can do, and runs of such events.\<close>

datatype live_event =
    GetFolderAtom string depth
  | GetFileAtom string
  | Subscribe atom
  | Unsubscribe atom

fun live_step :: "live_event \<Rightarrow> live_state \<Rightarrow> live_state" where
  "live_step (GetFolderAtom path dp) st = snd (getFolderAtom path dp st)"
| "live_step (GetFileAtom path) st = snd (getFileAtom path st)"
| "live_step (Subscribe a) st = subscribe a st"
| "live_step (Unsubscribe a) st = unsubscribe a st"

definition live_run :: "live_event list \<Rightarrow> live_state \<Rightarrow> live_state" where
  "live_run evs st = foldl (\<lambda>st ev. live_step ev st) st evs"

text \<open>
  Identities handed out so far are below the counters: no interval and no store entry
  refers to an atom or interval that has not been created yet.
\<close>

definition ids_fresh :: "live_state \<Rightarrow> bool" where
  "ids_fresh st \<longleftrightarrow>
     (\<forall>i k. timers st i = Some k \<longrightarrow> i < next_timer st \<and> refreshes k < next_atom st) \<and>
     (\<forall>i m. mounted st i = Some m \<longrightarrow> i < next_atom st)"

section \<open>Resolution as specified, probes, and the contract of a drive\<close>

text \<open>
  The resolution as the specification words it (4.1), to be compared with what the
  operations above do: segment 1 is the mount keyword and segment 2 names a drive of the
  mount table, or else the root drive and the path as it is.
\<close>

definition resolve_spec :: "'s fs_manager \<Rightarrow> string \<Rightarrow> 's drive \<times> string" where
  "resolve_spec fs path =
     (let segments = js_split CHR ''/'' path in
      case (nth_opt segments 1, nth_opt segments 2) of
        (Some keyword, Some name) \<Rightarrow>
          (if keyword = ''mnt'' then
             (case map_of (mountedDrives fs) name of
                Some d \<Rightarrow> (d, ''/'' @ js_join ''/'' (drop 3 segments))
              | None \<Rightarrow> (rootDrive fs, path))
           else (rootDrive fs, path))
      | _ \<Rightarrow> (rootDrive fs, path))"

text \<open>
  The resolution with the test the code makes on segment 2: the mount table is
  consulted only for a segment 2 that is not empty.
\<close>

definition resolve_amended :: "'s fs_manager \<Rightarrow> string \<Rightarrow> 's drive \<times> string" where
  "resolve_amended fs path =
     (let segments = js_split CHR ''/'' path in
      case (nth_opt segments 1, nth_opt segments 2) of
        (Some keyword, Some name) \<Rightarrow>
          (if keyword = ''mnt'' \<and> name \<noteq> [] then
             (case map_of (mountedDrives fs) name of
                Some d \<Rightarrow> (d, ''/'' @ js_join ''/'' (drop 3 segments))
              | None \<Rightarrow> (rootDrive fs, path))
           else (rootDrive fs, path))
      | _ \<Rightarrow> (rootDrive fs, path))"

text \<open>
  The drive and the path an operation on \<open>path\<close> is handed to, if any: what the
  common first lines of the operations compute.
\<close>

definition target :: "'s fs_manager \<Rightarrow> string \<Rightarrow> ('s drive \<times> string) option" where
  "target fs path =
     (case getMountedDriveForPath fs path of
        Own mountedDrive \<Rightarrow> Some (mountedDrive, getRelativePath path)
      | FromPrototype mountedDrive \<Rightarrow> Some (mountedDrive, getRelativePath path)
      | Inherited \<Rightarrow> None
      | Undefined \<Rightarrow> Some (rootDrive fs, path))"

text \<open>What the start-up code asks before it writes: does a shallow read through the
  manager find a folder, or a file, at the path?\<close>

definition folder_seen :: "'s fs_manager \<Rightarrow> string \<Rightarrow> 's \<Rightarrow> bool" where
  "folder_seen fs p s \<longleftrightarrow> (\<exists>f. getFolder fs p Shallow s = Inr (Some f))"

definition file_seen :: "'s fs_manager \<Rightarrow> string \<Rightarrow> 's \<Rightarrow> bool" where
  "file_seen fs p s \<longleftrightarrow> (\<exists>f. getFile fs p Shallow s = Inr (Some f))"

text \<open>All drives a manager can delegate to: the root drive, the mounted drives, and what
  a prototype the constructor installed makes reachable.\<close>

definition drives :: "'s fs_manager \<Rightarrow> 's drive list" where
  "drives fs =
     rootDrive fs # map snd (mountedDrives fs) @
       (case mountedDrivesProto fs of
          None \<Rightarrow> []
        | Some (protoDrive, members) \<Rightarrow> protoDrive # List.map_filter snd members)"

text \<open>
  Modelled from the spec: what the start-up code relies on from the \<^verbatim>\<open>Drive\<close> class,
  which is not among the sources (spec 4.2: \<^verbatim>\<open>createFolder\<close> creates a folder,
  \<^verbatim>\<open>writeFile\<close> creates or overwrites a file, a read returns \<^verbatim>\<open>null\<close> only when nothing
  exists at the path). A folder that was created is found by a shallow folder read, a
  file that was written is found by a shallow file read, creating a folder or writing a
  file on one drive removes no folder of any drive, and creating a folder removes no
  file.
\<close>

definition folder_found :: "'s drive \<Rightarrow> string \<Rightarrow> 's \<Rightarrow> bool" where
  "folder_found d p s \<longleftrightarrow> (\<exists>f. d_getFolder d p Shallow s = Inr (Some f))"

definition file_found :: "'s drive \<Rightarrow> string \<Rightarrow> 's \<Rightarrow> bool" where
  "file_found d p s \<longleftrightarrow> (\<exists>f. d_getFile d p Shallow s = Inr (Some f))"

definition drive_contract :: "'s drive list \<Rightarrow> bool" where
  "drive_contract ds \<longleftrightarrow>
     (\<forall>d \<in> set ds. \<forall>p s s'. d_createFolder d p s = Inr s' \<longrightarrow> folder_found d p s') \<and>
     (\<forall>d \<in> set ds. \<forall>p c s s'. d_writeFile d p c s = Inr s' \<longrightarrow> file_found d p s') \<and>
     (\<forall>d \<in> set ds. \<forall>d' \<in> set ds. \<forall>p q s s'.
        d_createFolder d p s = Inr s' \<longrightarrow> folder_found d' q s \<longrightarrow> folder_found d' q s') \<and>
     (\<forall>d \<in> set ds. \<forall>d' \<in> set ds. \<forall>p c q s s'.
        d_writeFile d p c s = Inr s' \<longrightarrow> folder_found d' q s \<longrightarrow> folder_found d' q s') \<and>
     (\<forall>d \<in> set ds. \<forall>d' \<in> set ds. \<forall>p q s s'.
        d_createFolder d p s = Inr s' \<longrightarrow> file_found d' q s \<longrightarrow> file_found d' q s')"

section \<open>A drive in memory, for concrete inputs\<close>

text \<open>
  A small drive that keeps its entries in a list keyed by drive label and path. It
  serves only to run the manager on concrete inputs; no theorem about the manager
  depends on it.
\<close>

datatype mem_entry = MemDir | MemFile content

type_synonym mem_store = "((string \<times> string) \<times> mem_entry) list"

definition base_name :: "string \<Rightarrow> string" where
  "base_name p = last (js_split CHR ''/'' p)"

definition child_path :: "string \<Rightarrow> string \<Rightarrow> string" where
  "child_path p name = (if p = ''/'' then p @ name else p @ ''/'' @ name)"

fun mem_folder :: "nat \<Rightarrow> mem_store \<Rightarrow> string \<Rightarrow> depth \<Rightarrow> string \<Rightarrow> folder" where
  "mem_folder 0 st label dp p = Folder (base_name p) Map.empty"
| "mem_folder (Suc fuel) st label dp p =
     Folder (base_name p)
       (\<lambda>name. if name = [] \<or> CHR ''/'' \<in> set name then None
               else (case map_of st (label, child_path p name) of
                       None \<Rightarrow> None
                     | Some (MemFile c) \<Rightarrow>
                         Some (Some (FileNode (if dp = Deep then DeepFile name c
                                               else StubFile name)))
                     | Some MemDir \<Rightarrow>
                         Some (Some (if dp = Deep
                                     then SubFolder (mem_folder fuel st label dp
                                                       (child_path p name))
                                     else FolderStub name))))"

definition mem_getFolder :: "string \<Rightarrow> string \<Rightarrow> depth \<Rightarrow> mem_store \<Rightarrow> fs_error + folder option" where
  "mem_getFolder label p dp st =
     Inr (if p = ''/'' \<or> map_of st (label, p) = Some MemDir
          then Some (mem_folder (Suc (length st)) st label dp p) else None)"

definition mem_getFile :: "string \<Rightarrow> string \<Rightarrow> depth \<Rightarrow> mem_store \<Rightarrow> fs_error + fs_file option" where
  "mem_getFile label p dp st =
     Inr (case map_of st (label, p) of
            Some (MemFile c) \<Rightarrow>
              Some (if dp = Deep then DeepFile (base_name p) c else StubFile (base_name p))
          | _ \<Rightarrow> None)"

definition mem_drive :: "string \<Rightarrow> mem_store drive" where
  "mem_drive label =
     \<lparr>d_writeFile = (\<lambda>p c st. if map_of st (label, p) = Some MemDir
                               then Inl BackingStoreFailure
                               else Inr (((label, p), MemFile c) # st)),
      d_createFolder = (\<lambda>p st. case map_of st (label, p) of
                                  Some MemDir \<Rightarrow> Inr st
                                | Some (MemFile c) \<Rightarrow> Inl BackingStoreFailure
                                | None \<Rightarrow> Inr (((label, p), MemDir) # st)),
      d_delete = (\<lambda>p st. if map_of st (label, p) = None then Inl NotFound
                          else Inr (filter (\<lambda>e. fst e \<noteq> (label, p)) st)),
      d_getItem = (\<lambda>p dp st.
         case mem_getFile label p dp st of
           Inl e \<Rightarrow> Inl e
         | Inr (Some f) \<Rightarrow> Inr (Some (ItemFile f))
         | Inr None \<Rightarrow> map_sum id (map_option ItemFolder) (mem_getFolder label p dp st)),
      d_getFolder = mem_getFolder label,
      d_getFile = mem_getFile label,
      d_insert = (\<lambda>p item st.
         case item of
           ItemFile (DeepFile n c) \<Rightarrow> Inr (((label, p), MemFile c) # st)
         | ItemFile (StubFile n) \<Rightarrow> Inl BackingStoreFailure
         | ItemFolder f \<Rightarrow> Inr (((label, p), MemDir) # st)),
      d_move = (\<lambda>p q st.
         case map_of st (label, p) of
           None \<Rightarrow> Inl NotFound
         | Some e \<Rightarrow> Inr (((label, q), e) # filter (\<lambda>e. fst e \<noteq> (label, p)) st))\<rparr>"

text \<open>Reading a listing: the child stored under a name in a folder that was returned,
  and the child stored under a name in its \<^verbatim>\<open>mnt\<close> folder.\<close>

definition listing_entry :: "fs_error + folder option \<Rightarrow> string \<Rightarrow> node option option" where
  "listing_entry r name = (case r of Inr (Some f) \<Rightarrow> folder_items f name | _ \<Rightarrow> None)"

definition mnt_child :: "fs_error + folder option \<Rightarrow> string \<Rightarrow> node option option" where
  "mnt_child r name =
     (case listing_entry r ''mnt'' of
        Some (Some (SubFolder f)) \<Rightarrow> folder_items f name
      | _ \<Rightarrow> None)"

text \<open>The value the deep branch stores for a drive: its deep root read, \<^verbatim>\<open>null\<close> included.\<close>

definition deep_root_child :: "'s drive \<Rightarrow> 's \<Rightarrow> node option" where
  "deep_root_child d s =
     (case d_getFolder d ''/'' Deep s of Inr r \<Rightarrow> map_option SubFolder r | Inl e \<Rightarrow> None)"

text \<open>Concrete managers and stores.\<close>

definition example_fs :: "mem_store fs_manager" where
  "example_fs = \<lparr>rootDrive = mem_drive ''root'',
                  mountedDrives = [(''X'', mem_drive ''X''), (''Y'', mem_drive ''Y'')],
                  mountedDrivesProto = None\<rparr>"

definition example_store :: mem_store where
  "example_store =
     [((''X'', ''/docs/a.txt''), MemFile (Text ''hi'')),
      ((''X'', ''/docs''), MemDir),
      ((''root'', ''/mnt''), MemDir),
      ((''root'', ''/system''), MemDir)]"

definition example_paths :: well_known where
  "example_paths = \<lparr>SYSTEM_PATH = ''/system'', PROGRAMS_PATH = ''/programs'',
                     USER_PATH = ''/user'', REGISTRY_PATH = ''/system/registry.reg''\<rparr>"

text \<open>The store a first start-up leaves behind when it began with an empty one.\<close>

definition fresh_store :: mem_store where
  "fresh_store =
     [((''root'', ''/system/registry.reg''), MemFile (Text ''{}'')),
      ((''root'', ''/user''), MemDir),
      ((''root'', ''/programs''), MemDir),
      ((''root'', ''/system''), MemDir)]"

text \<open>The first two atoms a fresh manager creates, for a folder and for a file.\<close>

definition docs_atom :: atom where
  "docs_atom = \<lparr>atom_id = 0, atom_read = ReadFolder ''/docs'' Shallow\<rparr>"

definition file_atom :: atom where
  "file_atom = \<lparr>atom_id = 1, atom_read = ReadFile ''/docs/a.txt''\<rparr>"

text \<open>
  A run in which a second consumer obtains the atom of \<^verbatim>\<open>/docs\<close> while the first is
  subscribed, the first consumer leaves, the second then subscribes the atom it holds,
  and a third consumer asks for the same key and subscribes what it gets.
\<close>

definition later_docs_atom :: atom where
  "later_docs_atom = \<lparr>atom_id = 1, atom_read = ReadFolder ''/docs'' Shallow\<rparr>"

definition kept_atom_run :: "live_event list" where
  "kept_atom_run =
     [GetFolderAtom ''/docs'' Shallow, Subscribe docs_atom,
      GetFolderAtom ''/docs'' Shallow, Unsubscribe docs_atom, Subscribe docs_atom,
      GetFolderAtom ''/docs'' Shallow, Subscribe later_docs_atom]"

definition unnamed_fs :: "mem_store fs_manager" where
  "unnamed_fs = \<lparr>rootDrive = mem_drive ''root'', mountedDrives = [([], mem_drive ''E'')],
                  mountedDrivesProto = None\<rparr>"

text \<open>
  A manager constructed with one mounted drive, named \<^verbatim>\<open>__proto__\<close>; the handles are the
  labels of the in-memory store.
\<close>

definition proto_fs :: "mem_store fs_manager" where
  "proto_fs = new_FsManager mem_drive (\<lambda>handle. []) ''root'' [(''__proto__'', ''P'')]"

definition nomount_fs :: "mem_store fs_manager" where
  "nomount_fs = \<lparr>rootDrive = mem_drive ''root'', mountedDrives = [],
                  mountedDrivesProto = None\<rparr>"

text \<open>A drive whose storage root is gone: every folder read resolves to \<^verbatim>\<open>null\<close>.\<close>

definition gone_drive :: "mem_store drive" where
  "gone_drive = (mem_drive ''gone'')\<lparr>d_getFolder := (\<lambda>p dp st. Inr None)\<rparr>"

definition gone_fs :: "mem_store fs_manager" where
  "gone_fs = \<lparr>rootDrive = mem_drive ''root'',
               mountedDrives = [(''X'', mem_drive ''X''), (''G'', gone_drive)],
               mountedDrivesProto = None\<rparr>"

section \<open>Path resolution\<close>

text \<open>
  Splitting and joining are inverse, and a path of the shape \<^verbatim>\<open>/mnt/NAME/REST\<close> with a
  mounted, non-empty \<^verbatim>\<open>NAME\<close> is handed to that drive as \<^verbatim>\<open>/REST\<close>.
\<close>

lemma js_split_from_nonempty: "js_split_from sep cur s \<noteq> []"
  by (induction s arbitrary: cur) auto

lemma js_join_cons:
  "rest \<noteq> [] \<Longrightarrow> js_join sep (x # rest) = x @ sep @ js_join sep rest"
  by (cases rest) auto

lemma js_join_split_from: "js_join [sep] (js_split_from sep cur s) = cur @ s"
  by (induction s arbitrary: cur) (auto simp: js_join_cons js_split_from_nonempty)

lemma js_join_split: "js_join [sep] (js_split sep s) = s"
  by (simp add: js_split_def js_join_split_from)

lemma js_split_from_plain:
  "sep \<notin> set name \<Longrightarrow> js_split_from sep cur (name @ sep # rest) = (cur @ name) # js_split_from sep [] rest"
  by (induction name arbitrary: cur) auto

lemma js_split_from_last:
  "sep \<notin> set name \<Longrightarrow> js_split_from sep cur name = [cur @ name]"
  by (induction name arbitrary: cur) auto

lemma js_split_mounted:
  assumes "CHR ''/'' \<notin> set name"
  shows "js_split CHR ''/'' (''/mnt/'' @ name @ ''/'' @ rest)
           = [] # ''mnt'' # name # js_split CHR ''/'' rest"
    and "js_split CHR ''/'' (''/mnt/'' @ name) = [[], ''mnt'', name]"
proof -
  have a: "js_split_from CHR ''/'' [] (name @ CHR ''/'' # rest) = name # js_split_from CHR ''/'' [] rest"
    using js_split_from_plain [OF assms, of "[]" rest] by simp
  show "js_split CHR ''/'' (''/mnt/'' @ name @ ''/'' @ rest)
           = [] # ''mnt'' # name # js_split CHR ''/'' rest"
    by (simp add: js_split_def a)
  show "js_split CHR ''/'' (''/mnt/'' @ name) = [[], ''mnt'', name]"
    using js_split_from_last [OF assms, of "[]"] by (simp add: js_split_def)
qed

text \<open>
  The lookup in the mount table: a stored drive is found whatever the prototype is,
  nothing else is ever found as a stored drive, and with the prototype untouched the
  lookup is the one of a plain object.
\<close>

lemma mountedDrives_get_own:
  "map_of (mountedDrives fs) key = Some d \<Longrightarrow> mountedDrives_get fs key = Own d"
  by (simp add: mountedDrives_get_def js_get_def split: option.splits prod.splits)

lemma mountedDrives_get_Own_iff:
  "mountedDrives_get fs key = Own d \<longleftrightarrow> map_of (mountedDrives fs) key = Some d"
  by (auto simp: mountedDrives_get_def js_get_def split: option.splits prod.splits)

lemma mountedDrives_get_plain:
  "mountedDrivesProto fs = None
     \<Longrightarrow> mountedDrives_get fs key = js_get (map_of (mountedDrives fs)) key"
  by (simp add: mountedDrives_get_def)

lemma mountedDrives_get_FromPrototype:
  assumes "mountedDrives_get fs key = FromPrototype v"
  shows "mountedDrivesProto fs \<noteq> None" and "map_of (mountedDrives fs) key = None"
    and "v \<in> set (drives fs)"
proof -
  show "mountedDrivesProto fs \<noteq> None"
    using assms by (auto simp: mountedDrives_get_def js_get_def split: option.splits if_splits)
  show "map_of (mountedDrives fs) key = None"
    using assms
    by (auto simp: mountedDrives_get_def js_get_def split: option.splits prod.splits if_splits)
  show "v \<in> set (drives fs)"
  proof (cases "mountedDrivesProto fs")
    case None
    with assms show ?thesis
      by (auto simp: mountedDrives_get_def js_get_def split: option.splits if_splits)
  next
    case (Some pm)
    obtain p ms where pm: "pm = (p, ms)" by (cases pm)
    show ?thesis
    proof (cases "v = p")
      case True
      then show ?thesis by (simp add: drives_def Some pm)
    next
      case False
      with assms Some pm have "map_of ms key = Some (Some v)"
        by (auto simp: mountedDrives_get_def js_get_def split: option.splits if_splits)
      then have "(key, Some v) \<in> set ms" by (rule map_of_SomeD)
      then have "v \<in> set (List.map_filter snd ms)"
        by (force simp: map_filter_def)
      then show ?thesis by (simp add: drives_def Some pm)
    qed
  qed
qed

text \<open>
  What the constructor builds. The prototype of the mount table is replaced exactly
  when one of the drives it is given is named \<^verbatim>\<open>__proto__\<close>, a drive of that name is
  never a stored entry, and the other drives are stored under their names in the order
  given.
\<close>

lemma js_assign_names: "fst ` set (js_assign xs key v) = insert key (fst ` set xs)"
proof (induction xs)
  case Nil
  then show ?case by simp
next
  case (Cons x xs)
  obtain k w where x: "x = (k, w)" by (cases x)
  show ?case
  proof (cases "k = key")
    case True
    then show ?thesis by (simp add: x)
  next
    case False
    then have "fst ` set (js_assign (x # xs) key v) = insert k (fst ` set (js_assign xs key v))"
      by (simp add: x)
    also have "\<dots> = insert k (insert key (fst ` set xs))" by (simp add: Cons.IH)
    also have "\<dots> = insert key (fst ` set (x # xs))" by (auto simp: x)
    finally show ?thesis .
  qed
qed

lemma js_assign_fresh: "key \<notin> fst ` set xs \<Longrightarrow> js_assign xs key v = xs @ [(key, v)]"
  by (induction xs) auto

lemma new_FsManager_fold:
  "mountedDrivesProto
     (foldl (\<lambda>fs (name, handle). assignMountedDrive fs name (nd handle) (dm handle)) fs0 es)
     = None
   \<longleftrightarrow> mountedDrivesProto fs0 = None \<and> ''__proto__'' \<notin> fst ` set es"
proof (induction es arbitrary: fs0)
  case Nil
  then show ?case by simp
next
  case (Cons e es)
  obtain n h where e: "e = (n, h)" by (cases e)
  have "mountedDrivesProto (assignMountedDrive fs0 n (nd h) (dm h)) = None
          \<longleftrightarrow> mountedDrivesProto fs0 = None \<and> n \<noteq> ''__proto__''"
    by (simp add: assignMountedDrive_def)
  with Cons.IH [of "assignMountedDrive fs0 n (nd h) (dm h)"] show ?case
    by (auto simp: e)
qed

lemma new_FsManager_proto:
  "mountedDrivesProto (new_FsManager nd dm rootHandle es) = None
     \<longleftrightarrow> ''__proto__'' \<notin> fst ` set es"
  by (simp add: new_FsManager_def new_FsManager_fold)

lemma new_FsManager_fold_own:
  "''__proto__'' \<notin> fst ` set (mountedDrives fs0)
   \<Longrightarrow> ''__proto__'' \<notin> fst ` set (mountedDrives
         (foldl (\<lambda>fs (name, handle). assignMountedDrive fs name (nd handle) (dm handle)) fs0 es))"
proof (induction es arbitrary: fs0)
  case Nil
  then show ?case by simp
next
  case (Cons e es)
  obtain n h where e: "e = (n, h)" by (cases e)
  have "''__proto__'' \<notin> fst ` set (mountedDrives (assignMountedDrive fs0 n (nd h) (dm h)))"
    using Cons.prems by (simp add: assignMountedDrive_def js_assign_names)
  from Cons.IH [OF this] show ?case by (simp add: e)
qed

lemma new_FsManager_own:
  "''__proto__'' \<notin> fst ` set (mountedDrives (new_FsManager nd dm rootHandle es))"
  unfolding new_FsManager_def by (rule new_FsManager_fold_own) simp

lemma new_FsManager_fold_plain:
  assumes "distinct (map fst (mountedDrives fs0) @ map fst es)"
    and "''__proto__'' \<notin> fst ` set es"
  shows "foldl (\<lambda>fs (name, handle). assignMountedDrive fs name (nd handle) (dm handle)) fs0 es
     = fs0\<lparr>mountedDrives := mountedDrives fs0 @ map (\<lambda>(name, handle). (name, nd handle)) es\<rparr>"
  using assms
proof (induction es arbitrary: fs0)
  case Nil
  then show ?case by simp
next
  case (Cons e es)
  obtain n h where e: "e = (n, h)" by (cases e)
  from Cons.prems e have fresh: "n \<notin> fst ` set (mountedDrives fs0)" and n: "n \<noteq> ''__proto__''"
    by auto
  have step: "assignMountedDrive fs0 n (nd h) (dm h)
                = fs0\<lparr>mountedDrives := mountedDrives fs0 @ [(n, nd h)]\<rparr>"
    using n fresh by (simp add: assignMountedDrive_def js_assign_fresh)
  have "distinct (map fst (mountedDrives (fs0\<lparr>mountedDrives := mountedDrives fs0 @ [(n, nd h)]\<rparr>))
                    @ map fst es)"
    using Cons.prems e by auto
  moreover have "''__proto__'' \<notin> fst ` set es" using Cons.prems by auto
  ultimately show ?case
    using Cons.IH [of "fs0\<lparr>mountedDrives := mountedDrives fs0 @ [(n, nd h)]\<rparr>"]
    by (simp add: e step)
qed

lemma new_FsManager_plain:
  assumes "distinct (map fst es)" and "''__proto__'' \<notin> fst ` set es"
  shows "new_FsManager nd dm rootHandle es
     = \<lparr>rootDrive = nd rootHandle,
        mountedDrives = map (\<lambda>(name, handle). (name, nd handle)) es,
        mountedDrivesProto = None\<rparr>"
  unfolding new_FsManager_def
  using new_FsManager_fold_plain [of "\<lparr>rootDrive = nd rootHandle, mountedDrives = [],
          mountedDrivesProto = None\<rparr>" es nd dm] assms
  by simp

lemma mounted_path_target:
  assumes "CHR ''/'' \<notin> set name" and "name \<noteq> []"
    and "map_of (mountedDrives fs) name = Some d"
  shows "getMountedDriveForPath fs (''/mnt/'' @ name @ ''/'' @ rest) = Own d"
    and "getRelativePath (''/mnt/'' @ name @ ''/'' @ rest) = ''/'' @ rest"
    and "getMountedDriveForPath fs (''/mnt/'' @ name) = Own d"
    and "getRelativePath (''/mnt/'' @ name) = ''/''"
proof -
  note p = js_split_mounted [OF assms(1)]
  have j: "js_join ''/'' (js_split CHR ''/'' rest) = rest"
    using js_join_split [of "CHR ''/''" rest] by simp
  show "getMountedDriveForPath fs (''/mnt/'' @ name @ ''/'' @ rest) = Own d"
    unfolding getMountedDriveForPath_def p Let_def
    using assms(2,3) by (simp add: nth_opt_def mountedDrives_get_own)
  show "getRelativePath (''/mnt/'' @ name @ ''/'' @ rest) = ''/'' @ rest"
    unfolding getRelativePath_def p by (simp add: j)
  show "getMountedDriveForPath fs (''/mnt/'' @ name) = Own d"
    unfolding getMountedDriveForPath_def p Let_def
    using assms(2,3) by (simp add: nth_opt_def mountedDrives_get_own)
  show "getRelativePath (''/mnt/'' @ name) = ''/''"
    unfolding getRelativePath_def p by simp
qed

lemma js_split_example: "js_split CHR ''/'' ''/mnt/X/docs/a.txt'' = [[], ''mnt'', ''X'', ''docs'', ''a.txt'']"
  by (simp add: js_split_def)

text \<open>
  The code against the resolution with the non-empty test, case by case of what the
  lookup yields.
\<close>

lemma resolve_amended_own:
  assumes "getMountedDriveForPath fs path = Own d"
  shows "resolve_amended fs path = (d, getRelativePath path)"
  using assms
  by (auto simp: getMountedDriveForPath_def resolve_amended_def getRelativePath_def Let_def
      mountedDrives_get_Own_iff split: option.splits if_splits)

lemma resolve_amended_undefined:
  assumes "getMountedDriveForPath fs path = Undefined"
  shows "resolve_amended fs path = (rootDrive fs, path)"
proof -
  have "map_of (mountedDrives fs) name = None"
    if "mountedDrives_get fs name = Undefined" for name
  proof (cases "map_of (mountedDrives fs) name")
    case None
    then show ?thesis .
  next
    case (Some d)
    from mountedDrives_get_own [OF this] that show ?thesis by simp
  qed
  with assms show ?thesis
    by (auto simp: getMountedDriveForPath_def resolve_amended_def Let_def
        split: option.splits if_splits)
qed

text \<open>
  The two resolutions differ only for an empty segment 2 with a drive mounted under the
  empty name.
\<close>

lemma resolve_amended_spec:
  assumes "\<not> (nth_opt (js_split CHR ''/'' path) 1 = Some ''mnt'' \<and>
             nth_opt (js_split CHR ''/'' path) 2 = Some [] \<and>
             map_of (mountedDrives fs) [] \<noteq> None)"
  shows "resolve_amended fs path = resolve_spec fs path"
  using assms
  by (auto simp: resolve_amended_def resolve_spec_def Let_def split: option.splits)

lemma not_inherited:
  assumes "mountedDrivesProto fs = None"
    and "\<forall>name. nth_opt (js_split CHR ''/'' path) 1 = Some ''mnt'' \<and>
             nth_opt (js_split CHR ''/'' path) 2 = Some name \<and>
             map_of (mountedDrives fs) name = None \<longrightarrow> name \<notin> set object_prototype_keys"
  shows "getMountedDriveForPath fs path \<noteq> Inherited"
  using assms
  by (auto simp: getMountedDriveForPath_def Let_def js_get_def mountedDrives_get_plain
      split: option.splits if_splits)

lemma getMountedDriveForPath_Own:
  assumes "getMountedDriveForPath fs path = Own d"
  shows "\<exists>seg. map_of (mountedDrives fs) seg = Some d"
  using assms
  by (auto simp: getMountedDriveForPath_def Let_def mountedDrives_get_Own_iff
      split: option.splits if_splits)

lemma getMountedDriveForPath_FromPrototype:
  assumes "getMountedDriveForPath fs path = FromPrototype v"
  shows "v \<in> set (drives fs)"
proof -
  from assms obtain seg where "mountedDrives_get fs seg = FromPrototype v"
    by (auto simp: getMountedDriveForPath_def Let_def split: option.splits if_splits)
  then show ?thesis by (rule mountedDrives_get_FromPrototype(3))
qed

lemma not_from_prototype:
  assumes "mountedDrivesProto fs = None"
  shows "getMountedDriveForPath fs path \<noteq> FromPrototype v"
  using assms
  by (auto simp: getMountedDriveForPath_def Let_def js_get_def mountedDrives_get_plain
      split: option.splits if_splits)

lemma getRelativePath_short:
  "length (js_split CHR ''/'' path) \<le> 3 \<Longrightarrow> getRelativePath path = ''/''"
  by (simp add: getRelativePath_def)

lemma mem_simps:
  "d_getFile (mem_drive l) = mem_getFile l"
  "d_getFolder (mem_drive l) = mem_getFolder l"
  by (simp_all add: mem_drive_def)


text \<open>
  A name every object inherits, with no drive mounted under it: the lookup yields the
  inherited function, and the call of a drive method on it throws.
\<close>

lemma inherited_name_rejected:
  "getFile \<lparr>rootDrive = mem_drive ''root'', mountedDrives = [], mountedDrivesProto = None\<rparr>
     ''/mnt/constructor/a.txt'' Shallow [] = Inl TypeError"
  by (simp add: getFile_def getMountedDriveForPath_def js_split_def nth_opt_def js_get_def
      mountedDrives_get_def object_prototype_keys_def)


text \<open>
  A manager constructed with a drive named \<^verbatim>\<open>__proto__\<close>: the drive is no entry of the
  mount table but its prototype. \<^verbatim>\<open>/mnt/__proto__/a.txt\<close> is read from that drive at
  \<^verbatim>\<open>/a.txt\<close>, and \<^verbatim>\<open>/mnt/getFile/a.txt\<close> finds the drive's method \<^verbatim>\<open>getFile\<close>, on which the
  call of a drive method throws. The theorem below is about the managers constructed
  without such a drive.
\<close>

lemma prototype_drive_reached:
  assumes "mountedDrivesProto fs = Some (p, ms)"
    and "map_of (mountedDrives fs) ''__proto__'' = None"
  shows "getFile fs (''/mnt/__proto__/'' @ rest) dp s = d_getFile p (''/'' @ rest) dp s"
proof -
  have sp: "js_split CHR ''/'' (''/mnt/__proto__/'' @ rest)
              = [] # ''mnt'' # ''__proto__'' # js_split CHR ''/'' rest"
    using js_split_mounted(1) [of "''__proto__''" rest] by simp
  have j: "js_join ''/'' (js_split CHR ''/'' rest) = rest"
    using js_join_split [of "CHR ''/''" rest] by simp
  have g: "getMountedDriveForPath fs (''/mnt/__proto__/'' @ rest) = FromPrototype p"
    unfolding getMountedDriveForPath_def sp Let_def
    using assms by (simp add: nth_opt_def mountedDrives_get_def)
  have r: "getRelativePath (''/mnt/__proto__/'' @ rest) = ''/'' @ rest"
    unfolding getRelativePath_def sp by (simp add: j)
  show ?thesis unfolding getFile_def g r by simp
qed

lemma proto_fs_built:
  "proto_fs = \<lparr>rootDrive = mem_drive ''root'', mountedDrives = [],
                mountedDrivesProto = Some (mem_drive ''P'', [])\<rparr>"
  by (simp add: proto_fs_def new_FsManager_def assignMountedDrive_def)

lemma proto_name_reaches_prototype:
  "getFile proto_fs ''/mnt/__proto__/a.txt'' Deep [((''P'', ''/a.txt''), MemFile (Text ''hi''))]
     = Inr (Some (DeepFile ''a.txt'' (Text ''hi'')))
   \<and> getFile proto_fs ''/mnt/getFile/a.txt'' Deep [((''P'', ''/a.txt''), MemFile (Text ''hi''))]
     = Inl TypeError"
proof -
  have a: "getFile proto_fs ''/mnt/__proto__/a.txt'' Deep
             [((''P'', ''/a.txt''), MemFile (Text ''hi''))]
           = d_getFile (mem_drive ''P'') ''/a.txt'' Deep
               [((''P'', ''/a.txt''), MemFile (Text ''hi''))]"
    using prototype_drive_reached [of proto_fs "mem_drive ''P''" "[]" "''a.txt''"]
    by (simp add: proto_fs_built)
  have b: "d_getFile (mem_drive ''P'') ''/a.txt'' Deep
             [((''P'', ''/a.txt''), MemFile (Text ''hi''))]
           = Inr (Some (DeepFile ''a.txt'' (Text ''hi'')))"
    by (simp add: mem_simps mem_getFile_def base_name_def js_split_def)
  have c: "getFile proto_fs ''/mnt/getFile/a.txt'' Deep
             [((''P'', ''/a.txt''), MemFile (Text ''hi''))] = Inl TypeError"
    by (simp add: proto_fs_built getFile_def getMountedDriveForPath_def js_split_def nth_opt_def
        mountedDrives_get_def drive_operation_names_def)
  from a b c show ?thesis by simp
qed

text \<open>
  The example managers are what the constructor builds: from two handles, and from one
  handle under the empty name.
\<close>

lemma example_fs_constructed:
  "new_FsManager mem_drive (\<lambda>handle. []) ''root'' [(''X'', ''X''), (''Y'', ''Y'')] = example_fs"
  by (simp add: new_FsManager_def assignMountedDrive_def example_fs_def)

lemma unnamed_fs_constructed:
  "new_FsManager mem_drive (\<lambda>handle. []) ''root'' [([], ''E'')] = unnamed_fs"
  by (simp add: new_FsManager_def assignMountedDrive_def unnamed_fs_def)


text \<open>
  C1, as amended. For a manager whose mount table has its original prototype (it was
  constructed without a drive named \<^verbatim>\<open>__proto__\<close>, lemma \<open>new_FsManager_proto\<close>), every
  operation does what the resolution with the non-empty test prescribes, for every
  path whose segment 2 is not an unmounted name that every object inherits. With
  segment 1 equal to \<^verbatim>\<open>mnt\<close> and segment 2 non-empty and the name of a mounted drive, it
  is that drive's operation at \<^verbatim>\<open>/\<close> followed by the segments from the fourth on joined
  with \<^verbatim>\<open>/\<close> (just \<^verbatim>\<open>/\<close> when there are at most three segments). Otherwise it is the root
  drive's operation at the unchanged path: when segment 1 is not \<^verbatim>\<open>mnt\<close>, when segment 2
  is absent, when segment 2 is empty (also with a drive mounted under the empty name),
  and when segment 2 names no mounted drive. Names are compared exactly. \<^verbatim>\<open>getFolder\<close>
  of the literal \<^verbatim>\<open>/\<close> is treated apart (it adds the mount listing).
\<close>

theorem path_resolution:
  assumes proto: "mountedDrivesProto fs = None"
    and own: "\<forall>name. nth_opt (js_split CHR ''/'' path) 1 = Some ''mnt'' \<and>
             nth_opt (js_split CHR ''/'' path) 2 = Some name \<and>
             map_of (mountedDrives fs) name = None \<longrightarrow> name \<notin> set object_prototype_keys"
  shows "writeFile fs path c s
           = d_writeFile (fst (resolve_amended fs path)) (snd (resolve_amended fs path)) c s
       \<and> createFolder fs path s
           = d_createFolder (fst (resolve_amended fs path)) (snd (resolve_amended fs path)) s
       \<and> delete fs path s
           = d_delete (fst (resolve_amended fs path)) (snd (resolve_amended fs path)) s
       \<and> getItem fs path dp s
           = d_getItem (fst (resolve_amended fs path)) (snd (resolve_amended fs path)) dp s
       \<and> (path \<noteq> ''/'' \<longrightarrow> getFolder fs path dp s
           = d_getFolder (fst (resolve_amended fs path)) (snd (resolve_amended fs path)) dp s)
       \<and> getFile fs path dp s
           = d_getFile (fst (resolve_amended fs path)) (snd (resolve_amended fs path)) dp s
       \<and> insert_item fs path item s
           = d_insert (fst (resolve_amended fs path)) (snd (resolve_amended fs path)) item s
       \<and> (length (js_split CHR ''/'' path) \<le> 3 \<longrightarrow> getRelativePath path = ''/'')
       \<and> (nth_opt (js_split CHR ''/'' path) 1 \<noteq> Some ''mnt''
            \<or> nth_opt (js_split CHR ''/'' path) 2 = None
            \<or> nth_opt (js_split CHR ''/'' path) 2 = Some []
            \<longrightarrow> resolve_amended fs path = (rootDrive fs, path))
       \<and> (\<forall>name. nth_opt (js_split CHR ''/'' path) 1 = Some ''mnt''
            \<and> nth_opt (js_split CHR ''/'' path) 2 = Some name \<and> name \<noteq> []
            \<longrightarrow> resolve_amended fs path
                  = (case map_of (mountedDrives fs) name of
                       Some d \<Rightarrow> (d, ''/'' @ js_join ''/'' (drop 3 (js_split CHR ''/'' path)))
                     | None \<Rightarrow> (rootDrive fs, path)))"
proof -
  have ops: "writeFile fs path c s
           = d_writeFile (fst (resolve_amended fs path)) (snd (resolve_amended fs path)) c s
       \<and> createFolder fs path s
           = d_createFolder (fst (resolve_amended fs path)) (snd (resolve_amended fs path)) s
       \<and> delete fs path s
           = d_delete (fst (resolve_amended fs path)) (snd (resolve_amended fs path)) s
       \<and> getItem fs path dp s
           = d_getItem (fst (resolve_amended fs path)) (snd (resolve_amended fs path)) dp s
       \<and> (path \<noteq> ''/'' \<longrightarrow> getFolder fs path dp s
           = d_getFolder (fst (resolve_amended fs path)) (snd (resolve_amended fs path)) dp s)
       \<and> getFile fs path dp s
           = d_getFile (fst (resolve_amended fs path)) (snd (resolve_amended fs path)) dp s
       \<and> insert_item fs path item s
           = d_insert (fst (resolve_amended fs path)) (snd (resolve_amended fs path)) item s
       \<and> (length (js_split CHR ''/'' path) \<le> 3 \<longrightarrow> getRelativePath path = ''/'')"
  proof (cases "getMountedDriveForPath fs path")
    case (Own d)
    then have "resolve_amended fs path = (d, getRelativePath path)"
      by (rule resolve_amended_own)
    with Own show ?thesis
      by (simp add: writeFile_def createFolder_def delete_def getItem_def getFolder_def
          getFile_def insert_item_def getRelativePath_short)
  next
    case Inherited
    with not_inherited [OF proto own] show ?thesis by simp
  next
    case Undefined
    then have "resolve_amended fs path = (rootDrive fs, path)"
      by (rule resolve_amended_undefined)
    with Undefined show ?thesis
      by (simp add: writeFile_def createFolder_def delete_def getItem_def getFolder_def
          getFile_def insert_item_def getRelativePath_short)
  next
    case (FromPrototype v)
    with not_from_prototype [OF proto] show ?thesis by simp
  qed
  have root: "nth_opt (js_split CHR ''/'' path) 1 \<noteq> Some ''mnt''
            \<or> nth_opt (js_split CHR ''/'' path) 2 = None
            \<or> nth_opt (js_split CHR ''/'' path) 2 = Some []
            \<longrightarrow> resolve_amended fs path = (rootDrive fs, path)"
    by (auto simp: resolve_amended_def Let_def split: option.splits)
  have mounted: "\<forall>name. nth_opt (js_split CHR ''/'' path) 1 = Some ''mnt''
            \<and> nth_opt (js_split CHR ''/'' path) 2 = Some name \<and> name \<noteq> []
            \<longrightarrow> resolve_amended fs path
                  = (case map_of (mountedDrives fs) name of
                       Some d \<Rightarrow> (d, ''/'' @ js_join ''/'' (drop 3 (js_split CHR ''/'' path)))
                     | None \<Rightarrow> (rootDrive fs, path))"
    by (auto simp: resolve_amended_def Let_def split: option.splits)
  from ops root mounted show ?thesis by simp
qed


text \<open>
  The theorem at a mounted drive (\<^verbatim>\<open>/mnt/X/docs/a.txt\<close> is read from drive \<^verbatim>\<open>X\<close> at
  \<^verbatim>\<open>/docs/a.txt\<close>), at a name that differs from a mounted one in case only
  (\<^verbatim>\<open>/mnt/x/docs/a.txt\<close> is read from the root drive, unchanged), and at an empty
  segment 2 with a drive mounted under the empty name (\<^verbatim>\<open>/mnt//a.txt\<close> is read from the
  root drive, unchanged, and not from that drive).
\<close>

theorem path_resolution_witness:
  "getFile example_fs ''/mnt/X/docs/a.txt'' Deep example_store
     = d_getFile (mem_drive ''X'') ''/docs/a.txt'' Deep example_store
   \<and> getFile example_fs ''/mnt/X/docs/a.txt'' Deep example_store
     = Inr (Some (DeepFile ''a.txt'' (Text ''hi'')))
   \<and> getFile example_fs ''/mnt/x/docs/a.txt'' Deep example_store
     = d_getFile (mem_drive ''root'') ''/mnt/x/docs/a.txt'' Deep example_store
   \<and> getFile unnamed_fs ''/mnt//a.txt'' Deep [((''E'', ''/a.txt''), MemFile (Text ''hi''))]
     = d_getFile (mem_drive ''root'') ''/mnt//a.txt'' Deep
         [((''E'', ''/a.txt''), MemFile (Text ''hi''))]
   \<and> getFile unnamed_fs ''/mnt//a.txt'' Deep [((''E'', ''/a.txt''), MemFile (Text ''hi''))]
     = Inr None"
proof -
  have p1: "js_split CHR ''/'' ''/mnt/X/docs/a.txt'' = [[], ''mnt'', ''X'', ''docs'', ''a.txt'']"
    by (simp add: js_split_def)
  have p2: "js_split CHR ''/'' ''/mnt/x/docs/a.txt'' = [[], ''mnt'', ''x'', ''docs'', ''a.txt'']"
    by (simp add: js_split_def)
  have p3: "js_split CHR ''/'' ''/mnt//a.txt'' = [[], ''mnt'', [], ''a.txt'']"
    by (simp add: js_split_def)
  have n1: "mountedDrivesProto example_fs = None"
    by (simp add: example_fs_def)
  have n3: "mountedDrivesProto unnamed_fs = None"
    by (simp add: unnamed_fs_def)
  have o1: "\<forall>name. nth_opt (js_split CHR ''/'' ''/mnt/X/docs/a.txt'') 1 = Some ''mnt'' \<and>
             nth_opt (js_split CHR ''/'' ''/mnt/X/docs/a.txt'') 2 = Some name \<and>
             map_of (mountedDrives example_fs) name = None \<longrightarrow> name \<notin> set object_prototype_keys"
    by (simp add: p1 nth_opt_def example_fs_def)
  have o2: "\<forall>name. nth_opt (js_split CHR ''/'' ''/mnt/x/docs/a.txt'') 1 = Some ''mnt'' \<and>
             nth_opt (js_split CHR ''/'' ''/mnt/x/docs/a.txt'') 2 = Some name \<and>
             map_of (mountedDrives example_fs) name = None \<longrightarrow> name \<notin> set object_prototype_keys"
    by (simp add: p2 nth_opt_def object_prototype_keys_def)
  have o3: "\<forall>name. nth_opt (js_split CHR ''/'' ''/mnt//a.txt'') 1 = Some ''mnt'' \<and>
             nth_opt (js_split CHR ''/'' ''/mnt//a.txt'') 2 = Some name \<and>
             map_of (mountedDrives unnamed_fs) name = None \<longrightarrow> name \<notin> set object_prototype_keys"
    by (simp add: p3 nth_opt_def object_prototype_keys_def)
  have r1: "resolve_amended example_fs ''/mnt/X/docs/a.txt'' = (mem_drive ''X'', ''/docs/a.txt'')"
    by (simp add: resolve_amended_def p1 nth_opt_def example_fs_def)
  have r2: "resolve_amended example_fs ''/mnt/x/docs/a.txt''
              = (mem_drive ''root'', ''/mnt/x/docs/a.txt'')"
    by (simp add: resolve_amended_def p2 nth_opt_def example_fs_def)
  have r3: "resolve_amended unnamed_fs ''/mnt//a.txt'' = (mem_drive ''root'', ''/mnt//a.txt'')"
    by (simp add: resolve_amended_def p3 nth_opt_def unnamed_fs_def)
  have v: "d_getFile (mem_drive ''X'') ''/docs/a.txt'' Deep example_store
             = Inr (Some (DeepFile ''a.txt'' (Text ''hi'')))"
    by (simp add: mem_simps mem_getFile_def example_store_def base_name_def js_split_def)
  have w: "d_getFile (mem_drive ''root'') ''/mnt//a.txt'' Deep
             [((''E'', ''/a.txt''), MemFile (Text ''hi''))] = Inr None"
    by (simp add: mem_simps mem_getFile_def)
  have t1: "getFile example_fs ''/mnt/X/docs/a.txt'' Deep example_store
     = d_getFile (mem_drive ''X'') ''/docs/a.txt'' Deep example_store"
    using path_resolution [OF n1 o1] by (simp add: r1)
  have t2: "getFile example_fs ''/mnt/x/docs/a.txt'' Deep example_store
     = d_getFile (mem_drive ''root'') ''/mnt/x/docs/a.txt'' Deep example_store"
    using path_resolution [OF n1 o2] by (simp add: r2)
  have t3: "getFile unnamed_fs ''/mnt//a.txt'' Deep [((''E'', ''/a.txt''), MemFile (Text ''hi''))]
     = d_getFile (mem_drive ''root'') ''/mnt//a.txt'' Deep
         [((''E'', ''/a.txt''), MemFile (Text ''hi''))]"
    using path_resolution [OF n3 o3] by (simp add: r3)
  from t1 t2 t3 v w show ?thesis by simp
qed


text \<open>
  C1 as stated fails for a drive mounted under the empty name: segment 2 of
  \<^verbatim>\<open>/mnt//a.txt\<close> names it, the specification's resolution gives that drive and
  \<^verbatim>\<open>/a.txt\<close>, but the manager reads \<^verbatim>\<open>/mnt//a.txt\<close> from the root drive.
\<close>

theorem path_resolution_counterexample:
  "resolve_spec unnamed_fs ''/mnt//a.txt'' = (mem_drive ''E'', ''/a.txt'')
   \<and> getFile unnamed_fs ''/mnt//a.txt'' Deep [((''E'', ''/a.txt''), MemFile (Text ''hi''))]
       = d_getFile (rootDrive unnamed_fs) ''/mnt//a.txt'' Deep
           [((''E'', ''/a.txt''), MemFile (Text ''hi''))]
   \<and> getFile unnamed_fs ''/mnt//a.txt'' Deep [((''E'', ''/a.txt''), MemFile (Text ''hi''))]
       \<noteq> d_getFile (fst (resolve_spec unnamed_fs ''/mnt//a.txt''))
            (snd (resolve_spec unnamed_fs ''/mnt//a.txt'')) Deep
            [((''E'', ''/a.txt''), MemFile (Text ''hi''))]"
  by (simp add: unnamed_fs_def resolve_spec_def getFile_def getMountedDriveForPath_def
      js_split_def nth_opt_def mem_simps mem_getFile_def base_name_def)

section \<open>The listing of the namespace root\<close>

lemma foldl_upd_entries:
  "foldl (\<lambda>obj (k, v). obj(k \<mapsto> v)) m (map (\<lambda>name. (name, g name)) names) key
     = (if key \<in> set names then Some (g key) else m key)"
  by (induction names arbitrary: m) auto

lemma shallowMntItems_apply:
  "shallowMntItems mounts name
     = (if name \<in> fst ` set mounts then Some (Some (FolderStub name)) else None)"
  unfolding shallowMntItems_def fromEntries_def
  by (simp add: foldl_upd_entries del: map_map)

lemma deepMntItems_all:
  assumes "distinct (map fst ms)"
    and "\<forall>(name, d) \<in> set ms. \<exists>r. d_getFolder d ''/'' Deep s = Inr r"
  shows "deepMntItems ms s items
     = Inr (\<lambda>name. case map_of ms name of
                     None \<Rightarrow> items name
                   | Some d \<Rightarrow> Some (deep_root_child d s))"
  using assms
proof (induction ms arbitrary: items)
  case Nil
  then show ?case by simp
next
  case (Cons m ms)
  obtain n d where m: "m = (n, d)" by (cases m)
  from Cons.prems m obtain r where r: "d_getFolder d ''/'' Deep s = Inr r" by auto
  from Cons.prems m have fresh: "map_of ms n = None"
    by (simp add: map_of_eq_None_iff)
  have "deepMntItems (m # ms) s items
          = deepMntItems ms s (items(n \<mapsto> map_option SubFolder r))"
    by (simp add: m r)
  also have "\<dots> = Inr (\<lambda>name. case map_of ms name of
                     None \<Rightarrow> (items(n \<mapsto> map_option SubFolder r)) name
                   | Some d \<Rightarrow> Some (deep_root_child d s))"
    using Cons.prems by (intro Cons.IH) auto
  also have "\<dots> = Inr (\<lambda>name. case map_of (m # ms) name of
                     None \<Rightarrow> items name
                   | Some d \<Rightarrow> Some (deep_root_child d s))"
    using fresh by (auto simp: m r deep_root_child_def fun_eq_iff split: option.splits)
  finally show ?case .
qed

lemma getFolder_root_shallow:
  assumes "d_getFolder (rootDrive fs) ''/'' Shallow s = Inr (Some rf)"
    and "mountedDrives fs \<noteq> []"
  shows "getFolder fs ''/'' Shallow s
     = Inr (Some (Folder (folder_name rf)
         ((folder_items rf)(''mnt'' \<mapsto> Some (SubFolder (Folder ''mnt''
            (\<lambda>name. if name \<in> fst ` set (mountedDrives fs)
                     then Some (Some (FolderStub name)) else None)))))))"
  using assms by (simp add: getFolder_def shallowMntItems_apply [abs_def])

lemma getFolder_root_deep:
  assumes "d_getFolder (rootDrive fs) ''/'' Deep s = Inr (Some rf)"
    and "mountedDrives fs \<noteq> []"
    and "distinct (map fst (mountedDrives fs))"
    and "\<forall>(name, d) \<in> set (mountedDrives fs). \<exists>r. d_getFolder d ''/'' Deep s = Inr r"
  shows "getFolder fs ''/'' Deep s
     = Inr (Some (Folder (folder_name rf)
         ((folder_items rf)(''mnt'' \<mapsto> Some (SubFolder (Folder ''mnt''
            (\<lambda>name. map_option (\<lambda>d. deep_root_child d s)
                       (map_of (mountedDrives fs) name))))))))"
proof -
  have "deepMntItems (mountedDrives fs) s Map.empty
     = Inr (\<lambda>name. map_option (\<lambda>d. deep_root_child d s) (map_of (mountedDrives fs) name))"
    using assms(3,4) by (simp add: deepMntItems_all fun_eq_iff split: option.splits)
  with assms(1,2) show ?thesis by (simp add: getFolder_def)
qed

lemma getFolder_root_nomounts:
  assumes "mountedDrives fs = []"
  shows "getFolder fs ''/'' dp s = d_getFolder (rootDrive fs) ''/'' dp s"
  using assms by (simp add: getFolder_def split: sum.splits option.splits)

lemma getFolder_root_null:
  assumes "d_getFolder (rootDrive fs) ''/'' dp s = Inr None"
  shows "getFolder fs ''/'' dp s = Inr None"
  using assms by (simp add: getFolder_def)

lemma deepMntItems_dom:
  "deepMntItems ms s items = Inr M \<Longrightarrow> dom M \<subseteq> dom items \<union> fst ` set ms"
proof (induction ms arbitrary: items)
  case Nil
  then show ?case by auto
next
  case (Cons m ms)
  obtain n d where m: "m = (n, d)" by (cases m)
  from Cons.prems m obtain r where r: "d_getFolder d ''/'' Deep s = Inr r"
    and rest: "deepMntItems ms s (items(n \<mapsto> map_option SubFolder r)) = Inr M"
    by (auto split: sum.splits)
  from Cons.IH [OF rest] show ?case by (auto simp: m)
qed

lemma shallowMntItems_dom: "dom (shallowMntItems ms) \<subseteq> fst ` set ms"
  by (auto simp: shallowMntItems_apply dom_def)

lemma getFolder_root_shape:
  assumes "mountedDrives fs \<noteq> []"
    and "getFolder fs ''/'' dp s = Inr (Some f)"
  shows "\<exists>rf items. d_getFolder (rootDrive fs) ''/'' dp s = Inr (Some rf)
           \<and> f = Folder (folder_name rf)
                   ((folder_items rf)(''mnt'' \<mapsto> Some (SubFolder (Folder ''mnt'' items))))
           \<and> dom items \<subseteq> fst ` set (mountedDrives fs)"
proof -
  from assms obtain rf where rf: "d_getFolder (rootDrive fs) ''/'' dp s = Inr (Some rf)"
    by (auto simp: getFolder_def split: sum.splits option.splits)
  show ?thesis
  proof (cases dp)
    case Shallow
    with assms rf have "f = Folder (folder_name rf)
        ((folder_items rf)(''mnt'' \<mapsto> Some (SubFolder (Folder ''mnt''
           (shallowMntItems (mountedDrives fs))))))"
      by (simp add: getFolder_def)
    with rf shallowMntItems_dom show ?thesis by blast
  next
    case Deep
    with assms rf obtain M where M: "deepMntItems (mountedDrives fs) s Map.empty = Inr M"
      and f: "f = Folder (folder_name rf)
        ((folder_items rf)(''mnt'' \<mapsto> Some (SubFolder (Folder ''mnt'' M))))"
      by (auto simp: getFolder_def split: sum.splits)
    from deepMntItems_dom [OF M] have "dom M \<subseteq> fst ` set (mountedDrives fs)" by simp
    with rf f show ?thesis by blast
  qed
qed

lemma getFolder_root_shallow_form:
  "getFolder fs ''/'' Shallow s =
     (case d_getFolder (rootDrive fs) ''/'' Shallow s of
        Inl e \<Rightarrow> Inl e
      | Inr None \<Rightarrow> Inr None
      | Inr (Some rf) \<Rightarrow>
          if 0 < length (map fst (mountedDrives fs))
          then Inr (Some (Folder (folder_name rf)
                 ((folder_items rf)(''mnt'' \<mapsto> Some (SubFolder (Folder ''mnt''
                    (fromEntries (map (\<lambda>name. (name, Some (FolderStub name)))
                                    (map fst (mountedDrives fs))))))))))
          else Inr (Some rf))"
  by (simp add: getFolder_def shallowMntItems_def del: map_map length_map
      split: sum.splits option.splits)

lemma shallow_root_ignores_drives:
  assumes "rootDrive fs = rootDrive fs'"
    and "map fst (mountedDrives fs) = map fst (mountedDrives fs')"
  shows "getFolder fs ''/'' Shallow s = getFolder fs' ''/'' Shallow s"
  unfolding getFolder_root_shallow_form assms by (rule refl)

lemma example_mounts: "mountedDrives example_fs \<noteq> []"
  by (simp add: example_fs_def)

lemma example_root_shallow:
  "d_getFolder (rootDrive example_fs) ''/'' Shallow example_store
     = Inr (Some (mem_folder 5 example_store ''root'' Shallow ''/''))"
  by (simp add: example_fs_def mem_simps mem_getFolder_def example_store_def eval_nat_numeral)

lemma example_distinct: "distinct (map fst (mountedDrives example_fs))"
  by (simp add: example_fs_def)

lemma example_root_deep:
  "d_getFolder (rootDrive example_fs) ''/'' Deep example_store
     = Inr (Some (mem_folder 5 example_store ''root'' Deep ''/''))"
  by (simp add: example_fs_def mem_simps mem_getFolder_def example_store_def eval_nat_numeral)

lemma example_reads:
  "\<forall>(name, d) \<in> set (mountedDrives example_fs). \<exists>r. d_getFolder d ''/'' Deep example_store = Inr r"
  by (simp add: example_fs_def mem_simps mem_getFolder_def)

lemma gone_mounts: "mountedDrives gone_fs \<noteq> []" "distinct (map fst (mountedDrives gone_fs))"
  by (simp_all add: gone_fs_def)

lemma gone_root_deep:
  "d_getFolder (rootDrive gone_fs) ''/'' Deep [] = Inr (Some (mem_folder 1 [] ''root'' Deep ''/''))"
  by (simp add: gone_fs_def mem_simps mem_getFolder_def)

lemma gone_reads:
  "\<forall>(name, d) \<in> set (mountedDrives gone_fs). \<exists>r. d_getFolder d ''/'' Deep [] = Inr r"
  by (simp add: gone_fs_def gone_drive_def mem_simps mem_getFolder_def)

text \<open>
  C2, as amended. With no drive mounted, \<^verbatim>\<open>getFolder("/", depth)\<close> is the root drive's
  own read, unmodified: nothing is added, and an entry named \<^verbatim>\<open>mnt\<close> is there exactly
  when the root store's own listing has one. With at least one drive mounted, every
  folder the call returns is the root drive's listing with the entry \<^verbatim>\<open>mnt\<close> set to a
  computed folder named \<^verbatim>\<open>mnt\<close> whose children are among the mounted drive names, all
  other entries being the root drive's; at shallow depth that folder holds exactly one
  name-only folder placeholder per mounted drive name, and the result is the same for
  any other drives mounted under the same names (no mounted drive is read). When the
  root drive's read resolves to \<^verbatim>\<open>null\<close>, so does the call.
\<close>

theorem root_listing_mounts:
  "(mountedDrives fs = [] \<longrightarrow>
      getFolder fs ''/'' dp s = d_getFolder (rootDrive fs) ''/'' dp s)
   \<and> (mountedDrives fs \<noteq> [] \<longrightarrow> getFolder fs ''/'' dp s = Inr (Some f) \<longrightarrow>
        (\<exists>rf items. d_getFolder (rootDrive fs) ''/'' dp s = Inr (Some rf)
           \<and> f = Folder (folder_name rf)
                   ((folder_items rf)(''mnt'' \<mapsto> Some (SubFolder (Folder ''mnt'' items))))
           \<and> dom items \<subseteq> fst ` set (mountedDrives fs)))
   \<and> (mountedDrives fs \<noteq> [] \<longrightarrow>
        d_getFolder (rootDrive fs) ''/'' Shallow s = Inr (Some root) \<longrightarrow>
        getFolder fs ''/'' Shallow s
          = Inr (Some (Folder (folder_name root)
              ((folder_items root)(''mnt'' \<mapsto> Some (SubFolder (Folder ''mnt''
                 (\<lambda>name. if name \<in> fst ` set (mountedDrives fs)
                          then Some (Some (FolderStub name)) else None))))))))
   \<and> (rootDrive fs = rootDrive fs' \<and> map fst (mountedDrives fs) = map fst (mountedDrives fs')
        \<longrightarrow> getFolder fs ''/'' Shallow s = getFolder fs' ''/'' Shallow s)
   \<and> (d_getFolder (rootDrive fs) ''/'' dp s = Inr None \<longrightarrow>
        getFolder fs ''/'' dp s = Inr None)"
  using getFolder_root_nomounts [of fs dp s] getFolder_root_shape [of fs dp s f]
    getFolder_root_shallow [of fs s root] getFolder_root_null [of fs dp s]
    shallow_root_ignores_drives [of fs fs' s]
  by blast

text \<open>
  The theorem with two drives \<^verbatim>\<open>X\<close> and \<^verbatim>\<open>Y\<close> mounted (the \<^verbatim>\<open>mnt\<close> folder lists
  \<^verbatim>\<open>X\<close> as a placeholder, and nothing under \<^verbatim>\<open>Z\<close>; the root store's \<^verbatim>\<open>system\<close> stays)
  and with none mounted.
\<close>

theorem root_listing_mounts_witness:
  "mountedDrives example_fs \<noteq> []
   \<and> mnt_child (getFolder example_fs ''/'' Shallow example_store) ''X''
       = Some (Some (FolderStub ''X''))
   \<and> mnt_child (getFolder example_fs ''/'' Shallow example_store) ''Z'' = None
   \<and> listing_entry (getFolder example_fs ''/'' Shallow example_store) ''system''
       = Some (Some (FolderStub ''system''))
   \<and> getFolder nomount_fs ''/'' Shallow example_store
       = d_getFolder (mem_drive ''root'') ''/'' Shallow example_store"
proof -
  have a: "getFolder nomount_fs ''/'' Shallow example_store
       = d_getFolder (mem_drive ''root'') ''/'' Shallow example_store"
    using root_listing_mounts [of nomount_fs Shallow example_store]
    by (simp add: nomount_fs_def)
  have b: "getFolder example_fs ''/'' Shallow example_store
          = Inr (Some (Folder (folder_name (mem_folder 5 example_store ''root'' Shallow ''/''))
              ((folder_items (mem_folder 5 example_store ''root'' Shallow ''/''))
                 (''mnt'' \<mapsto> Some (SubFolder (Folder ''mnt''
                 (\<lambda>name. if name \<in> fst ` set (mountedDrives example_fs)
                          then Some (Some (FolderStub name)) else None)))))))"
    using root_listing_mounts [of example_fs Shallow example_store]
      example_mounts example_root_shallow by blast
  have c: "folder_items (mem_folder 5 example_store ''root'' Shallow ''/'') ''system''
             = Some (Some (FolderStub ''system''))"
    by (simp add: eval_nat_numeral example_store_def child_path_def)
  show ?thesis
    by (simp add: a b c example_mounts mnt_child_def listing_entry_def)
       (simp add: example_fs_def)
qed

text \<open>
  C2 as stated fails with no drive mounted when the root store itself holds a folder
  \<^verbatim>\<open>/mnt\<close>: the listing of \<^verbatim>\<open>/\<close> then has an entry named \<^verbatim>\<open>mnt\<close>.
\<close>

theorem root_listing_mounts_counterexample:
  "mountedDrives nomount_fs = []
   \<and> listing_entry (getFolder nomount_fs ''/'' Shallow [((''root'', ''/mnt''), MemDir)]) ''mnt''
       = Some (Some (FolderStub ''mnt''))"
  by (simp add: nomount_fs_def getFolder_def listing_entry_def mem_simps mem_getFolder_def
      child_path_def)

text \<open>
  C3. For \<^verbatim>\<open>getFolder("/", "deep")\<close> with at least one mounted drive, a root listing
  that is not \<^verbatim>\<open>null\<close> and deep root reads that all succeed (the names of the mount
  table being distinct, as the keys of an object are), the result is the root drive's
  listing with the entry \<^verbatim>\<open>mnt\<close> overwritten, whatever it was, by a folder \<^verbatim>\<open>mnt\<close>
  that maps each mounted drive name to the result of that drive's own
  \<^verbatim>\<open>getFolder("/", "deep")\<close>, and has no other entry.
\<close>

theorem deep_mount_listing:
  assumes "d_getFolder (rootDrive fs) ''/'' Deep s = Inr (Some rf)"
    and "mountedDrives fs \<noteq> []"
    and "distinct (map fst (mountedDrives fs))"
    and "\<forall>(name, d) \<in> set (mountedDrives fs). \<exists>r. d_getFolder d ''/'' Deep s = Inr r"
  shows "getFolder fs ''/'' Deep s
     = Inr (Some (Folder (folder_name rf)
         ((folder_items rf)(''mnt'' \<mapsto> Some (SubFolder (Folder ''mnt''
            (\<lambda>name. case map_of (mountedDrives fs) name of
                       None \<Rightarrow> None
                     | Some d \<Rightarrow>
                         (case d_getFolder d ''/'' Deep s of
                            Inr r \<Rightarrow> Some (map_option SubFolder r)
                          | Inl e \<Rightarrow> Some None))))))))"
proof -
  have "(\<lambda>name. map_option (\<lambda>d. deep_root_child d s) (map_of (mountedDrives fs) name))
      = (\<lambda>name. case map_of (mountedDrives fs) name of
                       None \<Rightarrow> None
                     | Some d \<Rightarrow>
                         (case d_getFolder d ''/'' Deep s of
                            Inr r \<Rightarrow> Some (map_option SubFolder r)
                          | Inl e \<Rightarrow> Some None))"
    by (auto simp: fun_eq_iff deep_root_child_def split: option.splits sum.splits)
  with getFolder_root_deep [OF assms] show ?thesis by simp
qed

text \<open>
  The theorem on a root store that has a real folder \<^verbatim>\<open>/mnt\<close>: the entry returned
  under \<^verbatim>\<open>mnt\<close> is the computed one, with drive \<^verbatim>\<open>X\<close>'s deep root under \<^verbatim>\<open>X\<close>.
\<close>

theorem deep_mount_listing_witness:
  "mnt_child (getFolder example_fs ''/'' Deep example_store) ''X''
     = Some (Some (SubFolder (mem_folder 5 example_store ''X'' Deep ''/'')))
   \<and> mnt_child (getFolder example_fs ''/'' Deep example_store) ''Z'' = None
   \<and> folder_items (mem_folder 5 example_store ''root'' Deep ''/'') ''mnt''
       = Some (Some (SubFolder (mem_folder 4 example_store ''root'' Deep ''/mnt'')))"
proof -
  have x: "d_getFolder (mem_drive ''X'') ''/'' Deep example_store
             = Inr (Some (mem_folder 5 example_store ''X'' Deep ''/''))"
    by (simp add: mem_simps mem_getFolder_def example_store_def eval_nat_numeral)
  have c: "folder_items (mem_folder 5 example_store ''root'' Deep ''/'') ''mnt''
       = Some (Some (SubFolder (mem_folder 4 example_store ''root'' Deep ''/mnt'')))"
    by (simp add: eval_nat_numeral example_store_def child_path_def)
  from deep_mount_listing [OF example_root_deep example_mounts example_distinct example_reads]
  show ?thesis
    by (simp add: c mnt_child_def listing_entry_def)
       (simp add: example_fs_def x)
qed

text \<open>
  C10. Under the same conditions, the child stored for a mounted drive is that drive's
  deep root folder when its deep root read resolves to a folder, and \<^verbatim>\<open>null\<close> (a
  property holding \<^verbatim>\<open>null\<close>, not a folder) when the read resolves to \<^verbatim>\<open>null\<close>.
\<close>

theorem deep_mount_null_child:
  assumes "d_getFolder (rootDrive fs) ''/'' Deep s = Inr (Some rf)"
    and "mountedDrives fs \<noteq> []"
    and "distinct (map fst (mountedDrives fs))"
    and "\<forall>(name, d) \<in> set (mountedDrives fs). \<exists>r. d_getFolder d ''/'' Deep s = Inr r"
    and "map_of (mountedDrives fs) name = Some d"
  shows "(d_getFolder d ''/'' Deep s = Inr None \<longrightarrow>
            mnt_child (getFolder fs ''/'' Deep s) name = Some None)
       \<and> (\<forall>f. d_getFolder d ''/'' Deep s = Inr (Some f) \<longrightarrow>
            mnt_child (getFolder fs ''/'' Deep s) name = Some (Some (SubFolder f)))"
  using getFolder_root_deep [OF assms(1-4)] assms(5)
  by (simp add: mnt_child_def listing_entry_def deep_root_child_def)

text \<open>
  The theorem with a drive \<^verbatim>\<open>G\<close> whose root read resolves to \<^verbatim>\<open>null\<close> beside a drive
  \<^verbatim>\<open>X\<close> whose root read resolves to a folder.
\<close>

theorem deep_mount_null_child_witness:
  "map_of (mountedDrives gone_fs) ''G'' = Some gone_drive
   \<and> d_getFolder gone_drive ''/'' Deep [] = Inr None
   \<and> mnt_child (getFolder gone_fs ''/'' Deep []) ''G'' = Some None
   \<and> mnt_child (getFolder gone_fs ''/'' Deep []) ''X''
       = Some (Some (SubFolder (mem_folder 1 [] ''X'' Deep ''/'')))"
proof -
  have g: "map_of (mountedDrives gone_fs) ''G'' = Some gone_drive"
    by (simp add: gone_fs_def)
  have x: "map_of (mountedDrives gone_fs) ''X'' = Some (mem_drive ''X'')"
    by (simp add: gone_fs_def)
  have n: "d_getFolder gone_drive ''/'' Deep [] = Inr None"
    by (simp add: gone_drive_def)
  have f: "d_getFolder (mem_drive ''X'') ''/'' Deep [] = Inr (Some (mem_folder 1 [] ''X'' Deep ''/''))"
    by (simp add: mem_simps mem_getFolder_def)
  from deep_mount_null_child [OF gone_root_deep gone_mounts gone_reads g]
    deep_mount_null_child [OF gone_root_deep gone_mounts gone_reads x] g n f
  show ?thesis by simp
qed

text \<open>
  C4. For every path other than the literal \<^verbatim>\<open>/\<close>, \<^verbatim>\<open>getFolder\<close> returns exactly
  what the drive the path resolves to returns, the mounted drive at the relative path
  or the root drive at the path itself; \<^verbatim>\<open>getFile\<close> and \<^verbatim>\<open>getItem\<close> do so for every
  path, \<^verbatim>\<open>/\<close> included. Nothing is added to any of these results. (Where the lookup
  yields an inherited property instead of a drive, the call fails and returns nothing;
  where it yields a value through a prototype the constructor installed, the result is
  exactly what that value returns at the relative path.)
\<close>

theorem no_injection_off_root:
  "(path \<noteq> ''/'' \<longrightarrow>
      (\<forall>d. getMountedDriveForPath fs path = Own d \<longrightarrow>
         getFolder fs path dp s = d_getFolder d (getRelativePath path) dp s)
      \<and> (getMountedDriveForPath fs path = Undefined \<longrightarrow>
         getFolder fs path dp s = d_getFolder (rootDrive fs) path dp s)
      \<and> (getMountedDriveForPath fs path = Inherited \<longrightarrow>
         getFolder fs path dp s = Inl TypeError)
      \<and> (\<forall>v. getMountedDriveForPath fs path = FromPrototype v \<longrightarrow>
         getFolder fs path dp s = d_getFolder v (getRelativePath path) dp s))
   \<and> (\<forall>d. getMountedDriveForPath fs path = Own d \<longrightarrow>
         getFile fs path dp s = d_getFile d (getRelativePath path) dp s
         \<and> getItem fs path dp s = d_getItem d (getRelativePath path) dp s)
   \<and> (getMountedDriveForPath fs path = Undefined \<longrightarrow>
         getFile fs path dp s = d_getFile (rootDrive fs) path dp s
         \<and> getItem fs path dp s = d_getItem (rootDrive fs) path dp s)
   \<and> (getMountedDriveForPath fs path = Inherited \<longrightarrow>
         getFile fs path dp s = Inl TypeError \<and> getItem fs path dp s = Inl TypeError)
   \<and> (\<forall>v. getMountedDriveForPath fs path = FromPrototype v \<longrightarrow>
         getFile fs path dp s = d_getFile v (getRelativePath path) dp s
         \<and> getItem fs path dp s = d_getItem v (getRelativePath path) dp s)"
  by (simp add: getFolder_def getFile_def getItem_def)

text \<open>
  The theorem at \<^verbatim>\<open>/mnt\<close> (a folder of the root store, read as it is), at \<^verbatim>\<open>/\<close> read
  with \<^verbatim>\<open>getItem\<close>, inside a mounted drive, and inside a drive that the constructor
  made the prototype of the mount table.
\<close>

theorem no_injection_off_root_witness:
  "''/mnt'' \<noteq> ''/''
   \<and> getMountedDriveForPath example_fs ''/mnt'' = Undefined
   \<and> getFolder example_fs ''/mnt'' Shallow example_store
       = d_getFolder (rootDrive example_fs) ''/mnt'' Shallow example_store
   \<and> getMountedDriveForPath example_fs ''/'' = Undefined
   \<and> getItem example_fs ''/'' Shallow example_store
       = d_getItem (rootDrive example_fs) ''/'' Shallow example_store
   \<and> getMountedDriveForPath example_fs ''/mnt/X/docs'' = Own (mem_drive ''X'')
   \<and> getFolder example_fs ''/mnt/X/docs'' Deep example_store
       = d_getFolder (mem_drive ''X'') ''/docs'' Deep example_store
   \<and> getMountedDriveForPath proto_fs ''/mnt/__proto__/docs'' = FromPrototype (mem_drive ''P'')
   \<and> getFolder proto_fs ''/mnt/__proto__/docs'' Deep example_store
       = d_getFolder (mem_drive ''P'') ''/docs'' Deep example_store"
proof -
  have d: "getMountedDriveForPath proto_fs ''/mnt/__proto__/docs''
             = FromPrototype (mem_drive ''P'')"
    by (simp add: getMountedDriveForPath_def js_split_def nth_opt_def mountedDrives_get_def
        proto_fs_built)
  have r': "getRelativePath ''/mnt/__proto__/docs'' = ''/docs''"
    by (simp add: getRelativePath_def js_split_def)
  have a: "getMountedDriveForPath example_fs ''/mnt'' = Undefined"
    by (simp add: getMountedDriveForPath_def js_split_def nth_opt_def)
  have b: "getMountedDriveForPath example_fs ''/'' = Undefined"
    by (simp add: getMountedDriveForPath_def js_split_def nth_opt_def)
  have c: "getMountedDriveForPath example_fs ''/mnt/X/docs'' = Own (mem_drive ''X'')"
    by (simp add: getMountedDriveForPath_def js_split_def nth_opt_def js_get_def
        mountedDrives_get_def example_fs_def)
  have r: "getRelativePath ''/mnt/X/docs'' = ''/docs''"
    by (simp add: getRelativePath_def js_split_def)
  from no_injection_off_root [of "''/mnt''" example_fs Shallow example_store]
    no_injection_off_root [of "''/''" example_fs Shallow example_store]
    no_injection_off_root [of "''/mnt/X/docs''" example_fs Deep example_store]
    no_injection_off_root [of "''/mnt/__proto__/docs''" proto_fs Deep example_store]
    a b c d r r'
  show ?thesis by simp
qed

section \<open>Moving\<close>

text \<open>
  C9. \<^verbatim>\<open>move(oldPath, newPath)\<close> chooses its drive from \<^verbatim>\<open>oldPath\<close> alone. When
  \<^verbatim>\<open>oldPath\<close> resolves to a mounted drive, that drive's \<^verbatim>\<open>move\<close> is called with the
  relative old path and with \<^verbatim>\<open>newPath\<close> rewritten to \<^verbatim>\<open>/\<close> followed by its segments
  from the fourth on, whatever \<^verbatim>\<open>newPath\<close> addresses; when \<^verbatim>\<open>oldPath\<close> resolves to
  the root drive, the root drive's \<^verbatim>\<open>move\<close> is called with both paths unchanged. In
  either case one drive performs the whole move. (Where the lookup yields an inherited
  property instead of a drive, the call fails and no drive is asked to move anything;
  where it yields a value through a prototype the constructor installed, that value
  alone is asked, with both paths made relative.)
\<close>

theorem move_within_source_drive:
  "(\<forall>d. getMountedDriveForPath fs oldPath = Own d \<longrightarrow>
       d \<in> snd ` set (mountedDrives fs)
       \<and> move fs oldPath newPath s
           = d_move d (getRelativePath oldPath)
               (''/'' @ js_join ''/'' (drop 3 (js_split CHR ''/'' newPath))) s)
   \<and> (getMountedDriveForPath fs oldPath = Undefined \<longrightarrow>
       move fs oldPath newPath s = d_move (rootDrive fs) oldPath newPath s)
   \<and> (getMountedDriveForPath fs oldPath = Inherited \<longrightarrow>
       move fs oldPath newPath s = Inl TypeError)
   \<and> (\<forall>v. getMountedDriveForPath fs oldPath = FromPrototype v \<longrightarrow>
       move fs oldPath newPath s
         = d_move v (getRelativePath oldPath)
             (''/'' @ js_join ''/'' (drop 3 (js_split CHR ''/'' newPath))) s)"
proof -
  have "d \<in> snd ` set (mountedDrives fs)" if "getMountedDriveForPath fs oldPath = Own d" for d
  proof -
    from that obtain seg where "map_of (mountedDrives fs) seg = Some d"
      using getMountedDriveForPath_Own by blast
    then have "(seg, d) \<in> set (mountedDrives fs)" by (rule map_of_SomeD)
    then show ?thesis by force
  qed
  then show ?thesis by (simp add: move_def getRelativePath_def)
qed

text \<open>
  The theorem for a move from drive \<^verbatim>\<open>X\<close> to a path under drive \<^verbatim>\<open>Y\<close> (performed
  inside \<^verbatim>\<open>X\<close>, to \<^verbatim>\<open>/b.txt\<close>), to a path outside any mount (rewritten to \<^verbatim>\<open>/\<close>),
  from the root store to a path under a mount (performed inside the root store), and
  from a drive that the constructor made the prototype of the mount table.
\<close>

theorem move_within_source_drive_witness:
  "getMountedDriveForPath example_fs ''/mnt/X/docs/a.txt'' = Own (mem_drive ''X'')
   \<and> move example_fs ''/mnt/X/docs/a.txt'' ''/mnt/Y/b.txt'' example_store
       = d_move (mem_drive ''X'') ''/docs/a.txt'' ''/b.txt'' example_store
   \<and> move example_fs ''/mnt/X/docs/a.txt'' ''/b.txt'' example_store
       = d_move (mem_drive ''X'') ''/docs/a.txt'' ''/'' example_store
   \<and> getMountedDriveForPath example_fs ''/system'' = Undefined
   \<and> move example_fs ''/system'' ''/mnt/X/system'' example_store
       = d_move (mem_drive ''root'') ''/system'' ''/mnt/X/system'' example_store
   \<and> getMountedDriveForPath proto_fs ''/mnt/__proto__/a.txt'' = FromPrototype (mem_drive ''P'')
   \<and> move proto_fs ''/mnt/__proto__/a.txt'' ''/b.txt'' example_store
       = d_move (mem_drive ''P'') ''/a.txt'' ''/'' example_store"
proof -
  have d: "getMountedDriveForPath proto_fs ''/mnt/__proto__/a.txt''
             = FromPrototype (mem_drive ''P'')"
    by (simp add: getMountedDriveForPath_def js_split_def nth_opt_def mountedDrives_get_def
        proto_fs_built)
  have r': "getRelativePath ''/mnt/__proto__/a.txt'' = ''/a.txt''"
    by (simp add: getRelativePath_def js_split_def)
  have a: "getMountedDriveForPath example_fs ''/mnt/X/docs/a.txt'' = Own (mem_drive ''X'')"
    by (simp add: getMountedDriveForPath_def js_split_def nth_opt_def js_get_def
        mountedDrives_get_def example_fs_def)
  have b: "getMountedDriveForPath example_fs ''/system'' = Undefined"
    by (simp add: getMountedDriveForPath_def js_split_def nth_opt_def)
  have r: "getRelativePath ''/mnt/X/docs/a.txt'' = ''/docs/a.txt''"
    by (simp add: getRelativePath_def js_split_def)
  have p1: "js_split CHR ''/'' ''/mnt/Y/b.txt'' = [[], ''mnt'', ''Y'', ''b.txt'']"
    by (simp add: js_split_def)
  have p2: "js_split CHR ''/'' ''/b.txt'' = [[], ''b.txt'']"
    by (simp add: js_split_def)
  have root: "rootDrive example_fs = mem_drive ''root''"
    by (simp add: example_fs_def)
  from move_within_source_drive [of example_fs "''/mnt/X/docs/a.txt''" "''/mnt/Y/b.txt''" example_store]
    move_within_source_drive [of example_fs "''/mnt/X/docs/a.txt''" "''/b.txt''" example_store]
    move_within_source_drive [of example_fs "''/system''" "''/mnt/X/system''" example_store]
    move_within_source_drive [of proto_fs "''/mnt/__proto__/a.txt''" "''/b.txt''" example_store]
    a b d r r' p1 p2 root
  show ?thesis by simp
qed

section \<open>Start-up\<close>

lemma target_in_drives: "target fs p = Some (d, r) \<Longrightarrow> d \<in> set (drives fs)"
proof -
  assume t: "target fs p = Some (d, r)"
  show ?thesis
  proof (cases "getMountedDriveForPath fs p")
    case (Own d')
    then obtain seg where "map_of (mountedDrives fs) seg = Some d'"
      using getMountedDriveForPath_Own by blast
    then have "(seg, d') \<in> set (mountedDrives fs)" by (rule map_of_SomeD)
    then have "d' \<in> snd ` set (mountedDrives fs)" by force
    with t Own show ?thesis by (simp add: target_def drives_def)
  next
    case Inherited
    with t show ?thesis by (simp add: target_def)
  next
    case Undefined
    with t show ?thesis by (simp add: target_def drives_def)
  next
    case (FromPrototype v)
    from getMountedDriveForPath_FromPrototype [OF this] t FromPrototype
    show ?thesis by (simp add: target_def)
  qed
qed

lemma createFolder_target:
  "createFolder fs p s = (case target fs p of None \<Rightarrow> Inl TypeError
                          | Some (d, r) \<Rightarrow> d_createFolder d r s)"
  by (simp add: createFolder_def target_def split: js_prop.splits)

lemma writeFile_target:
  "writeFile fs p c s = (case target fs p of None \<Rightarrow> Inl TypeError
                          | Some (d, r) \<Rightarrow> d_writeFile d r c s)"
  by (simp add: writeFile_def target_def split: js_prop.splits)

lemma getFile_target:
  "getFile fs p dp s = (case target fs p of None \<Rightarrow> Inl TypeError
                          | Some (d, r) \<Rightarrow> d_getFile d r dp s)"
  by (simp add: getFile_def target_def split: js_prop.splits)

lemma root_path_undefined: "getMountedDriveForPath fs ''/'' = Undefined"
  by (simp add: getMountedDriveForPath_def js_split_def nth_opt_def)


lemma folder_seen_target:
  "folder_seen fs p s
     \<longleftrightarrow> (case target fs p of None \<Rightarrow> False | Some (d, r) \<Rightarrow> folder_found d r s)"
proof (cases "p = ''/''")
  case True
  then show ?thesis
    by (auto simp: folder_seen_def getFolder_def target_def root_path_undefined folder_found_def
        split: sum.splits option.splits)
next
  case False
  then show ?thesis
    by (auto simp: folder_seen_def getFolder_def target_def folder_found_def
        split: js_prop.splits)
qed

lemma file_seen_target:
  "file_seen fs p s
     \<longleftrightarrow> (case target fs p of None \<Rightarrow> False | Some (d, r) \<Rightarrow> file_found d r s)"
  by (auto simp: file_seen_def getFile_target file_found_def split: option.splits)

lemma contract_created:
  assumes "drive_contract ds" "d \<in> set ds" "d_createFolder d p s = Inr s'"
  shows "folder_found d p s'"
proof -
  from assms(1)
  have "\<forall>d \<in> set ds. \<forall>p s s'. d_createFolder d p s = Inr s' \<longrightarrow> folder_found d p s'"
    by (simp add: drive_contract_def)
  then have "\<forall>p s s'. d_createFolder d p s = Inr s' \<longrightarrow> folder_found d p s'"
    using assms(2) by (rule bspec)
  then have "d_createFolder d p s = Inr s' \<longrightarrow> folder_found d p s'"
    by (elim allE)
  with assms(3) show ?thesis by (rule rev_mp)
qed

lemma contract_written:
  assumes "drive_contract ds" "d \<in> set ds" "d_writeFile d p c s = Inr s'"
  shows "file_found d p s'"
proof -
  from assms(1)
  have "\<forall>d \<in> set ds. \<forall>p c s s'. d_writeFile d p c s = Inr s' \<longrightarrow> file_found d p s'"
    by (simp add: drive_contract_def)
  then have "\<forall>p c s s'. d_writeFile d p c s = Inr s' \<longrightarrow> file_found d p s'"
    using assms(2) by (rule bspec)
  then have "d_writeFile d p c s = Inr s' \<longrightarrow> file_found d p s'"
    by (elim allE)
  with assms(3) show ?thesis by (rule rev_mp)
qed

lemma contract_create_keeps_folder:
  assumes "drive_contract ds" "d \<in> set ds" "d' \<in> set ds" "d_createFolder d p s = Inr s'"
    and "folder_found d' q s"
  shows "folder_found d' q s'"
proof -
  from assms(1)
  have "\<forall>d \<in> set ds. \<forall>d' \<in> set ds. \<forall>p q s s'.
        d_createFolder d p s = Inr s' \<longrightarrow> folder_found d' q s \<longrightarrow> folder_found d' q s'"
    by (simp add: drive_contract_def)
  then have "\<forall>d' \<in> set ds. \<forall>p q s s'.
        d_createFolder d p s = Inr s' \<longrightarrow> folder_found d' q s \<longrightarrow> folder_found d' q s'"
    using assms(2) by (rule bspec)
  then have "\<forall>p q s s'.
        d_createFolder d p s = Inr s' \<longrightarrow> folder_found d' q s \<longrightarrow> folder_found d' q s'"
    using assms(3) by (rule bspec)
  then have "d_createFolder d p s = Inr s' \<longrightarrow> folder_found d' q s \<longrightarrow> folder_found d' q s'"
    by (elim allE)
  with assms(4,5) show ?thesis by simp
qed

lemma contract_write_keeps_folder:
  assumes "drive_contract ds" "d \<in> set ds" "d' \<in> set ds" "d_writeFile d p c s = Inr s'"
    and "folder_found d' q s"
  shows "folder_found d' q s'"
proof -
  from assms(1)
  have "\<forall>d \<in> set ds. \<forall>d' \<in> set ds. \<forall>p c q s s'.
        d_writeFile d p c s = Inr s' \<longrightarrow> folder_found d' q s \<longrightarrow> folder_found d' q s'"
    by (simp add: drive_contract_def)
  then have "\<forall>d' \<in> set ds. \<forall>p c q s s'.
        d_writeFile d p c s = Inr s' \<longrightarrow> folder_found d' q s \<longrightarrow> folder_found d' q s'"
    using assms(2) by (rule bspec)
  then have "\<forall>p c q s s'.
        d_writeFile d p c s = Inr s' \<longrightarrow> folder_found d' q s \<longrightarrow> folder_found d' q s'"
    using assms(3) by (rule bspec)
  then have "d_writeFile d p c s = Inr s' \<longrightarrow> folder_found d' q s \<longrightarrow> folder_found d' q s'"
    by (elim allE)
  with assms(4,5) show ?thesis by simp
qed

lemma contract_create_keeps_file:
  assumes "drive_contract ds" "d \<in> set ds" "d' \<in> set ds" "d_createFolder d p s = Inr s'"
    and "file_found d' q s"
  shows "file_found d' q s'"
proof -
  from assms(1)
  have "\<forall>d \<in> set ds. \<forall>d' \<in> set ds. \<forall>p q s s'.
        d_createFolder d p s = Inr s' \<longrightarrow> file_found d' q s \<longrightarrow> file_found d' q s'"
    by (simp add: drive_contract_def)
  then have "\<forall>d' \<in> set ds. \<forall>p q s s'.
        d_createFolder d p s = Inr s' \<longrightarrow> file_found d' q s \<longrightarrow> file_found d' q s'"
    using assms(2) by (rule bspec)
  then have "\<forall>p q s s'.
        d_createFolder d p s = Inr s' \<longrightarrow> file_found d' q s \<longrightarrow> file_found d' q s'"
    using assms(3) by (rule bspec)
  then have "d_createFolder d p s = Inr s' \<longrightarrow> file_found d' q s \<longrightarrow> file_found d' q s'"
    by (elim allE)
  with assms(4,5) show ?thesis by simp
qed

lemma created_seen:
  assumes "drive_contract (drives fs)" and "createFolder fs p s = Inr s'"
  shows "folder_seen fs p s'"
proof -
  from assms(2) obtain d r where t: "target fs p = Some (d, r)"
    and c: "d_createFolder d r s = Inr s'"
    by (auto simp: createFolder_target split: option.splits)
  from t have "d \<in> set (drives fs)" by (rule target_in_drives)
  then have "folder_found d r s'" by (rule contract_created [OF assms(1) _ c])
  with t show ?thesis by (simp add: folder_seen_target)
qed

lemma written_seen:
  assumes "drive_contract (drives fs)" and "writeFile fs p c s = Inr s'"
  shows "file_seen fs p s'"
proof -
  from assms(2) obtain d r where t: "target fs p = Some (d, r)"
    and c: "d_writeFile d r c s = Inr s'"
    by (auto simp: writeFile_target split: option.splits)
  from t have "d \<in> set (drives fs)" by (rule target_in_drives)
  then have "file_found d r s'" by (rule contract_written [OF assms(1) _ c])
  with t show ?thesis by (simp add: file_seen_target)
qed

lemma create_keeps_folder:
  assumes "drive_contract (drives fs)" and "createFolder fs p s = Inr s'"
    and "folder_seen fs q s"
  shows "folder_seen fs q s'"
proof -
  from assms(2) obtain d r where t: "target fs p = Some (d, r)"
    and c: "d_createFolder d r s = Inr s'"
    by (auto simp: createFolder_target split: option.splits)
  from assms(3) obtain d' r' where t': "target fs q = Some (d', r')"
    and f: "folder_found d' r' s"
    by (auto simp: folder_seen_target split: option.splits)
  from t t' have "d \<in> set (drives fs)" "d' \<in> set (drives fs)"
    by (auto dest: target_in_drives)
  then have "folder_found d' r' s'"
    by (rule contract_create_keeps_folder [OF assms(1) _ _ c f])
  with t' show ?thesis by (simp add: folder_seen_target)
qed

lemma create_keeps_file:
  assumes "drive_contract (drives fs)" and "createFolder fs p s = Inr s'"
    and "file_seen fs q s"
  shows "file_seen fs q s'"
proof -
  from assms(2) obtain d r where t: "target fs p = Some (d, r)"
    and c: "d_createFolder d r s = Inr s'"
    by (auto simp: createFolder_target split: option.splits)
  from assms(3) obtain d' r' where t': "target fs q = Some (d', r')"
    and f: "file_found d' r' s"
    by (auto simp: file_seen_target split: option.splits)
  from t t' have "d \<in> set (drives fs)" "d' \<in> set (drives fs)"
    by (auto dest: target_in_drives)
  then have "file_found d' r' s'"
    by (rule contract_create_keeps_file [OF assms(1) _ _ c f])
  with t' show ?thesis by (simp add: file_seen_target)
qed

lemma write_keeps_folder:
  assumes "drive_contract (drives fs)" and "writeFile fs p c s = Inr s'"
    and "folder_seen fs q s"
  shows "folder_seen fs q s'"
proof -
  from assms(2) obtain d r where t: "target fs p = Some (d, r)"
    and c: "d_writeFile d r c s = Inr s'"
    by (auto simp: writeFile_target split: option.splits)
  from assms(3) obtain d' r' where t': "target fs q = Some (d', r')"
    and f: "folder_found d' r' s"
    by (auto simp: folder_seen_target split: option.splits)
  from t t' have "d \<in> set (drives fs)" "d' \<in> set (drives fs)"
    by (auto dest: target_in_drives)
  then have "folder_found d' r' s'"
    by (rule contract_write_keeps_folder [OF assms(1) _ _ c f])
  with t' show ?thesis by (simp add: folder_seen_target)
qed

lemma loop_nothing_to_do:
  "\<forall>dir \<in> set dirs. folder_seen fs dir s \<Longrightarrow> setupDirsLoop fs dirs s = Inr ([], s)"
  by (induction dirs) (auto simp: folder_seen_def)

lemma loop_result:
  assumes "drive_contract (drives fs)"
  shows "setupDirsLoop fs dirs s = Inr (calls, s') \<Longrightarrow>
     (\<forall>dir \<in> set dirs. folder_seen fs dir s')
     \<and> (\<forall>q. folder_seen fs q s \<longrightarrow> folder_seen fs q s')
     \<and> (\<forall>q. file_seen fs q s \<longrightarrow> file_seen fs q s')
     \<and> (\<forall>c \<in> set calls. \<exists>dir \<in> set dirs. c = CreateFolderCall dir \<and> \<not> folder_seen fs dir s)"
proof (induction dirs arbitrary: s calls)
  case Nil
  then show ?case by simp
next
  case (Cons dir dirs)
  show ?case
  proof (cases "folder_seen fs dir s")
    case True
    with Cons.prems have rest: "setupDirsLoop fs dirs s = Inr (calls, s')"
      by (auto simp: folder_seen_def)
    from Cons.IH [OF rest] True show ?thesis by auto
  next
    case False
    with Cons.prems obtain s1 calls1 where
      c: "createFolder fs dir s = Inr s1"
      and rest: "setupDirsLoop fs dirs s1 = Inr (calls1, s')"
      and calls: "calls = CreateFolderCall dir # calls1"
      by (auto simp: folder_seen_def split: sum.splits option.splits)
    note ih = Cons.IH [OF rest]
    have k: "folder_seen fs q s1" if "folder_seen fs q s" for q
      using create_keeps_folder [OF assms c that] .
    have kf: "file_seen fs q s1" if "file_seen fs q s" for q
      using create_keeps_file [OF assms c that] .
    have here: "folder_seen fs dir s1" using created_seen [OF assms c] .
    have a: "\<forall>d \<in> set (dir # dirs). folder_seen fs d s'"
      using ih here by auto
    have b: "\<forall>q. folder_seen fs q s \<longrightarrow> folder_seen fs q s'"
      using ih k by blast
    have b': "\<forall>q. file_seen fs q s \<longrightarrow> file_seen fs q s'"
      using ih kf by blast
    have d: "\<forall>c \<in> set calls. \<exists>d \<in> set (dir # dirs). c = CreateFolderCall d \<and> \<not> folder_seen fs d s"
    proof
      fix c assume "c \<in> set calls"
      then consider "c = CreateFolderCall dir" | "c \<in> set calls1" using calls by auto
      then show "\<exists>d \<in> set (dir # dirs). c = CreateFolderCall d \<and> \<not> folder_seen fs d s"
      proof cases
        case 1
        with False show ?thesis by auto
      next
        case 2
        with ih obtain d where "d \<in> set dirs" "c = CreateFolderCall d" "\<not> folder_seen fs d s1"
          by blast
        with k show ?thesis by auto
      qed
    qed
    from a b b' d show ?thesis by blast
  qed
qed

lemma mem_write_simps:
  "d_createFolder (mem_drive l) = (\<lambda>p st. case map_of st (l, p) of
                                  Some MemDir \<Rightarrow> Inr st
                                | Some (MemFile c) \<Rightarrow> Inl BackingStoreFailure
                                | None \<Rightarrow> Inr (((l, p), MemDir) # st))"
  "d_writeFile (mem_drive l) = (\<lambda>p c st. if map_of st (l, p) = Some MemDir
                               then Inl BackingStoreFailure
                               else Inr (((l, p), MemFile c) # st))"
  by (simp_all add: mem_drive_def)

lemma mem_folder_found:
  "folder_found (mem_drive l) p st \<longleftrightarrow> p = ''/'' \<or> map_of st (l, p) = Some MemDir"
  by (simp add: folder_found_def mem_simps mem_getFolder_def)

lemma mem_file_found:
  "file_found (mem_drive l) p st \<longleftrightarrow> (\<exists>c. map_of st (l, p) = Some (MemFile c))"
  by (auto simp: file_found_def mem_simps mem_getFile_def split: option.splits mem_entry.splits)

lemma mem_drive_contract:
  assumes "\<forall>d \<in> set ds. \<exists>l. d = mem_drive l"
  shows "drive_contract ds"
proof -
  have a: "folder_found (mem_drive l) p s'" if "d_createFolder (mem_drive l) p s = Inr s'"
    for l p s s'
    using that
    by (auto simp: mem_write_simps mem_folder_found split: option.splits mem_entry.splits)
  have b: "file_found (mem_drive l) p s'" if "d_writeFile (mem_drive l) p c s = Inr s'"
    for l p c s s'
    using that
    by (auto simp: mem_write_simps mem_file_found split: if_splits)
  have c: "folder_found (mem_drive l') q s'"
    if "d_createFolder (mem_drive l) p s = Inr s'" "folder_found (mem_drive l') q s"
    for l l' p q s s'
    using that
    by (auto simp: mem_write_simps mem_folder_found split: option.splits mem_entry.splits if_splits)
  have d: "folder_found (mem_drive l') q s'"
    if "d_writeFile (mem_drive l) p c s = Inr s'" "folder_found (mem_drive l') q s"
    for l l' p c q s s'
    using that
    by (auto simp: mem_write_simps mem_folder_found split: if_splits)
  have e: "file_found (mem_drive l') q s'"
    if "d_createFolder (mem_drive l) p s = Inr s'" "file_found (mem_drive l') q s"
    for l l' p q s s'
    using that
    by (auto simp: mem_write_simps mem_file_found split: option.splits mem_entry.splits if_splits)
  show ?thesis
    unfolding drive_contract_def
  proof (intro conjI ballI allI impI)
    fix d p s s' assume m: "d \<in> set ds" and r: "d_createFolder d p s = Inr s'"
    from assms m obtain l where "d = mem_drive l" by auto
    with r show "folder_found d p s'" by (simp add: a)
  next
    fix d p c s s' assume m: "d \<in> set ds" and r: "d_writeFile d p c s = Inr s'"
    from assms m obtain l where "d = mem_drive l" by auto
    with r show "file_found d p s'" by (simp add: b)
  next
    fix d d' p q s s'
    assume m: "d \<in> set ds" "d' \<in> set ds" and r: "d_createFolder d p s = Inr s'"
      and f: "folder_found d' q s"
    from assms m(1) obtain l where "d = mem_drive l" by auto
    moreover from assms m(2) obtain l' where "d' = mem_drive l'" by auto
    ultimately have "d = mem_drive l" "d' = mem_drive l'" by simp_all
    with r f show "folder_found d' q s'" by (simp add: c)
  next
    fix d d' p c q s s'
    assume m: "d \<in> set ds" "d' \<in> set ds" and r: "d_writeFile d p c s = Inr s'"
      and f: "folder_found d' q s"
    from assms m(1) obtain l where "d = mem_drive l" by auto
    moreover from assms m(2) obtain l' where "d' = mem_drive l'" by auto
    ultimately have "d = mem_drive l" "d' = mem_drive l'" by simp_all
    with r f show "folder_found d' q s'" by (simp add: d)
  next
    fix d d' p q s s'
    assume m: "d \<in> set ds" "d' \<in> set ds" and r: "d_createFolder d p s = Inr s'"
      and f: "file_found d' q s"
    from assms m(1) obtain l where "d = mem_drive l" by auto
    moreover from assms m(2) obtain l' where "d' = mem_drive l'" by auto
    ultimately have "d = mem_drive l" "d' = mem_drive l'" by simp_all
    with r f show "file_found d' q s'" by (simp add: e)
  qed
qed

lemma example_contract: "drive_contract (drives example_fs)"
  by (rule mem_drive_contract) (auto simp: drives_def example_fs_def)

lemma setup_nothing_to_do:
  assumes "\<forall>dir \<in> set [SYSTEM_PATH wk, PROGRAMS_PATH wk, USER_PATH wk]. folder_seen fs dir s"
    and "file_seen fs (REGISTRY_PATH wk) s"
  shows "setupDefaultDirectories fs wk s = Inr ([], s)"
proof -
  have "setupDirsLoop fs [SYSTEM_PATH wk, PROGRAMS_PATH wk, USER_PATH wk] s = Inr ([], s)"
    using assms(1) by (rule loop_nothing_to_do)
  moreover from assms(2) obtain f where "getFile fs (REGISTRY_PATH wk) Shallow s = Inr (Some f)"
    by (auto simp: file_seen_def)
  ultimately show ?thesis by (simp add: setupDefaultDirectories_def)
qed

lemma setup_result:
  assumes contract: "drive_contract (drives fs)"
    and run: "setupDefaultDirectories fs wk s = Inr (calls, s')"
  shows "(\<forall>dir \<in> set [SYSTEM_PATH wk, PROGRAMS_PATH wk, USER_PATH wk]. folder_seen fs dir s')
     \<and> file_seen fs (REGISTRY_PATH wk) s'
     \<and> (\<forall>dir. CreateFolderCall dir \<in> set calls \<longrightarrow>
           dir \<in> set [SYSTEM_PATH wk, PROGRAMS_PATH wk, USER_PATH wk] \<and> \<not> folder_seen fs dir s)
     \<and> (\<forall>p c. WriteFileCall p c \<in> set calls \<longrightarrow>
           p = REGISTRY_PATH wk \<and> c = Text ''{}'' \<and> \<not> file_seen fs p s)"
proof -
  define dirs where "dirs = [SYSTEM_PATH wk, PROGRAMS_PATH wk, USER_PATH wk]"
  define reg where "reg = REGISTRY_PATH wk"
  have unfolded: "setupDefaultDirectories fs wk s =
     (case setupDirsLoop fs dirs s of
        Inl e \<Rightarrow> Inl e
      | Inr (calls, s1) \<Rightarrow>
          (case getFile fs reg Shallow s1 of
             Inl e \<Rightarrow> Inl e
           | Inr (Some registryExists) \<Rightarrow> Inr (calls, s1)
           | Inr None \<Rightarrow>
               (case writeFile fs reg (Text ''{}'') s1 of
                  Inl e \<Rightarrow> Inl e
                | Inr s2 \<Rightarrow> Inr (calls @ [WriteFileCall reg (Text ''{}'')], s2))))"
    unfolding setupDefaultDirectories_def dirs_def reg_def by (rule refl)
  from run obtain calls1 s1 where loop: "setupDirsLoop fs dirs s = Inr (calls1, s1)"
    unfolding unfolded by (auto split: sum.splits)
  note lr = loop_result [OF contract loop]
  from lr have dirs1: "\<forall>dir \<in> set dirs. folder_seen fs dir s1" by (elim conjE)
  from lr have keepf': "\<forall>q. file_seen fs q s \<longrightarrow> file_seen fs q s1" by (elim conjE)
  from lr have creates: "\<forall>c \<in> set calls1. \<exists>dir \<in> set dirs.
      c = CreateFolderCall dir \<and> \<not> folder_seen fs dir s" by (elim conjE)
  have cr1: "dir \<in> set dirs \<and> \<not> folder_seen fs dir s" if "CreateFolderCall dir \<in> set calls1" for dir
  proof -
    from creates that obtain d where "d \<in> set dirs" "CreateFolderCall dir = CreateFolderCall d"
      "\<not> folder_seen fs d s" by blast
    then show ?thesis by simp
  qed
  have wr1: "WriteFileCall p c \<notin> set calls1" for p c
  proof
    assume "WriteFileCall p c \<in> set calls1"
    with creates obtain d where "WriteFileCall p c = CreateFolderCall d" by blast
    then show False by simp
  qed
  have "(\<forall>dir \<in> set dirs. folder_seen fs dir s')
     \<and> file_seen fs reg s'
     \<and> (\<forall>dir. CreateFolderCall dir \<in> set calls \<longrightarrow> dir \<in> set dirs \<and> \<not> folder_seen fs dir s)
     \<and> (\<forall>p c. WriteFileCall p c \<in> set calls \<longrightarrow>
           p = reg \<and> c = Text ''{}'' \<and> \<not> file_seen fs p s)"
  proof (cases "file_seen fs reg s1")
    case True
    then obtain f where "getFile fs reg Shallow s1 = Inr (Some f)"
      by (auto simp: file_seen_def)
    with run loop have eq: "calls = calls1" "s' = s1"
      unfolding unfolded by simp_all
    show ?thesis unfolding eq using dirs1 True cr1 wr1 by simp
  next
    case False
    then have "getFile fs reg Shallow s1 = Inr None \<or> (\<exists>e. getFile fs reg Shallow s1 = Inl e)"
      unfolding file_seen_def by (cases "getFile fs reg Shallow s1") auto
    with run loop have g: "getFile fs reg Shallow s1 = Inr None"
      unfolding unfolded by auto
    with run loop obtain s2 where w: "writeFile fs reg (Text ''{}'') s1 = Inr s2"
      and eq: "calls = calls1 @ [WriteFileCall reg (Text ''{}'')]" "s' = s2"
      unfolding unfolded by (cases "writeFile fs reg (Text ''{}'') s1") auto
    have dirs2: "\<forall>dir \<in> set dirs. folder_seen fs dir s2"
      using dirs1 write_keeps_folder [OF contract w] by blast
    have file2: "file_seen fs reg s2"
      using written_seen [OF contract w] .
    have nof: "\<not> file_seen fs reg s" using False keepf' by blast
    show ?thesis unfolding eq using dirs2 file2 cr1 wr1 nof by simp
  qed
  then show ?thesis unfolding dirs_def reg_def .
qed

lemma setup_nothing_to_do_set:
  assumes "(\<forall>dir \<in> set [SYSTEM_PATH wk, PROGRAMS_PATH wk, USER_PATH wk]. folder_seen fs dir s)
     \<and> file_seen fs (REGISTRY_PATH wk) s \<and> P"
  shows "setupDefaultDirectories fs wk s = Inr ([], s)"
  using assms setup_nothing_to_do [of wk fs s] by (elim conjE) (rule setup_nothing_to_do)

lemma getFolder_target:
  "p \<noteq> ''/'' \<Longrightarrow> getFolder fs p dp s = (case target fs p of None \<Rightarrow> Inl TypeError
                          | Some (d, r) \<Rightarrow> d_getFolder d r dp s)"
  by (simp add: getFolder_def target_def split: js_prop.splits)

lemma example_targets:
  "target example_fs ''/system'' = Some (mem_drive ''root'', ''/system'')"
  "target example_fs ''/programs'' = Some (mem_drive ''root'', ''/programs'')"
  "target example_fs ''/user'' = Some (mem_drive ''root'', ''/user'')"
  "target example_fs ''/system/registry.reg'' = Some (mem_drive ''root'', ''/system/registry.reg'')"
  by (simp_all add: target_def getMountedDriveForPath_def js_split_def nth_opt_def example_fs_def)


lemma example_first_run:
  "setupDefaultDirectories example_fs example_paths []
     = Inr ([CreateFolderCall ''/system'', CreateFolderCall ''/programs'',
             CreateFolderCall ''/user'', WriteFileCall ''/system/registry.reg'' (Text ''{}'')],
            fresh_store)"
  by (simp add: setupDefaultDirectories_def example_paths_def getFolder_target createFolder_target
      getFile_target writeFile_target example_targets mem_simps mem_write_simps
      mem_getFolder_def mem_getFile_def fresh_store_def del: mem_folder.simps)

text \<open>
  C6. \<^verbatim>\<open>setupDefaultDirectories\<close> makes no call at all when shallow reads find the
  three folders and the registry file. For drives that keep the contract of the
  \<^verbatim>\<open>Drive\<close> class, a run that succeeds is followed by a run that makes no create and
  no write, raises no error and leaves the storage as it is; the first run creates
  only folders among the three well-known ones that a shallow \<^verbatim>\<open>getFolder\<close> did not
  find, and writes only the registry file, with content \<^verbatim>\<open>{}\<close>, and only when a
  shallow \<^verbatim>\<open>getFile\<close> did not find it.
\<close>

theorem setup_idempotent:
  "((\<forall>dir \<in> set [SYSTEM_PATH wk, PROGRAMS_PATH wk, USER_PATH wk]. folder_seen fs dir s)
      \<and> file_seen fs (REGISTRY_PATH wk) s
      \<longrightarrow> setupDefaultDirectories fs wk s = Inr ([], s))
   \<and> (drive_contract (drives fs) \<longrightarrow> setupDefaultDirectories fs wk s = Inr (calls, s') \<longrightarrow>
        setupDefaultDirectories fs wk s' = Inr ([], s')
        \<and> (\<forall>dir. CreateFolderCall dir \<in> set calls \<longrightarrow>
              dir \<in> set [SYSTEM_PATH wk, PROGRAMS_PATH wk, USER_PATH wk]
              \<and> \<not> folder_seen fs dir s)
        \<and> (\<forall>p c. WriteFileCall p c \<in> set calls \<longrightarrow>
              p = REGISTRY_PATH wk \<and> c = Text ''{}'' \<and> \<not> file_seen fs p s))"
proof (intro conjI impI)
  assume "(\<forall>dir \<in> set [SYSTEM_PATH wk, PROGRAMS_PATH wk, USER_PATH wk]. folder_seen fs dir s)
      \<and> file_seen fs (REGISTRY_PATH wk) s"
  then show "setupDefaultDirectories fs wk s = Inr ([], s)"
    by (elim conjE) (rule setup_nothing_to_do)
next
  assume c: "drive_contract (drives fs)" and r: "setupDefaultDirectories fs wk s = Inr (calls, s')"
  from setup_result [OF c r] show "setupDefaultDirectories fs wk s' = Inr ([], s')"
    by (rule setup_nothing_to_do_set)
next
  assume c: "drive_contract (drives fs)" and r: "setupDefaultDirectories fs wk s = Inr (calls, s')"
  from setup_result [OF c r] show "\<forall>dir. CreateFolderCall dir \<in> set calls \<longrightarrow>
              dir \<in> set [SYSTEM_PATH wk, PROGRAMS_PATH wk, USER_PATH wk]
              \<and> \<not> folder_seen fs dir s" by (elim conjE)
next
  assume c: "drive_contract (drives fs)" and r: "setupDefaultDirectories fs wk s = Inr (calls, s')"
  from setup_result [OF c r] show "\<forall>p c. WriteFileCall p c \<in> set calls \<longrightarrow>
              p = REGISTRY_PATH wk \<and> c = Text ''{}'' \<and> \<not> file_seen fs p s" by (elim conjE)
qed

text \<open>
  The theorem on an empty store: the first run creates the three folders and the
  registry file, the second run does nothing.
\<close>

theorem setup_idempotent_witness:
  "drive_contract (drives example_fs)
   \<and> setupDefaultDirectories example_fs example_paths []
       = Inr ([CreateFolderCall ''/system'', CreateFolderCall ''/programs'',
               CreateFolderCall ''/user'', WriteFileCall ''/system/registry.reg'' (Text ''{}'')],
              fresh_store)
   \<and> setupDefaultDirectories example_fs example_paths fresh_store = Inr ([], fresh_store)
   \<and> \<not> folder_seen example_fs ''/user'' []"
  using setup_idempotent [of example_paths example_fs "[]"
      "[CreateFolderCall ''/system'', CreateFolderCall ''/programs'',
        CreateFolderCall ''/user'', WriteFileCall ''/system/registry.reg'' (Text ''{}'')]"
      fresh_store]
    example_contract example_first_run
  by simp

text \<open>
  C7. \<^verbatim>\<open>hasSystemData()\<close> resolves to \<^verbatim>\<open>true\<close> exactly when a shallow \<^verbatim>\<open>getFolder\<close>
  of the system folder path resolves to a folder, and to \<^verbatim>\<open>false\<close> exactly when it
  resolves to \<^verbatim>\<open>null\<close>; for drives that keep the contract of the \<^verbatim>\<open>Drive\<close> class it
  is \<^verbatim>\<open>true\<close> right after the system folder has been created.
\<close>

theorem hasSystemData_probe:
  "(hasSystemData fs wk s = Inr True
      \<longleftrightarrow> (\<exists>f. getFolder fs (SYSTEM_PATH wk) Shallow s = Inr (Some f)))
   \<and> (hasSystemData fs wk s = Inr False
      \<longleftrightarrow> getFolder fs (SYSTEM_PATH wk) Shallow s = Inr None)
   \<and> (drive_contract (drives fs) \<longrightarrow> createFolder fs (SYSTEM_PATH wk) s = Inr s' \<longrightarrow>
        hasSystemData fs wk s' = Inr True)"
proof (intro conjI impI)
  show "hasSystemData fs wk s = Inr True
      \<longleftrightarrow> (\<exists>f. getFolder fs (SYSTEM_PATH wk) Shallow s = Inr (Some f))"
    by (auto simp: hasSystemData_def split: sum.splits)
  show "hasSystemData fs wk s = Inr False
      \<longleftrightarrow> getFolder fs (SYSTEM_PATH wk) Shallow s = Inr None"
    by (auto simp: hasSystemData_def split: sum.splits)
  assume "drive_contract (drives fs)" "createFolder fs (SYSTEM_PATH wk) s = Inr s'"
  then have "folder_seen fs (SYSTEM_PATH wk) s'" by (rule created_seen)
  then show "hasSystemData fs wk s' = Inr True"
    by (auto simp: hasSystemData_def folder_seen_def)
qed

text \<open>The theorem on an empty store, before and after \<^verbatim>\<open>/system\<close> is created.\<close>

theorem hasSystemData_probe_witness:
  "hasSystemData example_fs example_paths [] = Inr False
   \<and> createFolder example_fs ''/system'' [] = Inr [((''root'', ''/system''), MemDir)]
   \<and> hasSystemData example_fs example_paths [((''root'', ''/system''), MemDir)] = Inr True"
proof -
  have n: "getFolder example_fs (SYSTEM_PATH example_paths) Shallow [] = Inr None"
    by (simp add: example_paths_def getFolder_target example_targets mem_simps mem_getFolder_def)
  have c: "createFolder example_fs (SYSTEM_PATH example_paths) []
             = Inr [((''root'', ''/system''), MemDir)]"
    by (simp add: example_paths_def createFolder_target example_targets mem_write_simps)
  from hasSystemData_probe [of example_fs example_paths "[]" "[((''root'', ''/system''), MemDir)]"]
    n c example_contract
  show ?thesis by (simp add: example_paths_def)
qed

section \<open>Live views\<close>

lemma subscribe_first:
  "mounted st (atom_id a) = None \<Longrightarrow>
   subscribe a st
     = st\<lparr>timers := (timers st)(next_timer st \<mapsto> \<lparr>delay = 500, refreshes = atom_id a\<rparr>),
          next_timer := Suc (next_timer st),
          mounted := (mounted st)(atom_id a \<mapsto> (1, next_timer st))\<rparr>"
  by (simp add: subscribe_def onMount_def Let_def)

lemma subscribe_more:
  "mounted st (atom_id a) = Some (n, i) \<Longrightarrow>
   subscribe a st = st\<lparr>mounted := (mounted st)(atom_id a \<mapsto> (Suc n, i))\<rparr>"
  by (simp add: subscribe_def)

lemma unsubscribe_more:
  "mounted st (atom_id a) = Some (n, i) \<Longrightarrow> 1 < n \<Longrightarrow>
   unsubscribe a st = st\<lparr>mounted := (mounted st)(atom_id a \<mapsto> (n - 1, i))\<rparr>"
  by (simp add: unsubscribe_def)

lemma unsubscribe_last:
  "mounted st (atom_id a) = Some (n, i) \<Longrightarrow> n \<le> 1 \<Longrightarrow>
   unsubscribe a st = onUnmount a i (st\<lparr>mounted := (mounted st)(atom_id a := None)\<rparr>)"
  by (simp add: unsubscribe_def)

lemma getFolderAtom_timers: "timers (snd (getFolderAtom path dp st)) = timers st"
  by (simp add: getFolderAtom_def Let_def split: js_prop.splits)

lemma getFileAtom_timers: "timers (snd (getFileAtom path st)) = timers st"
  by (simp add: getFileAtom_def Let_def split: js_prop.splits)

lemma getFolderAtom_again:
  "getFolderAtom path dp st = (r, st1) \<Longrightarrow> getFolderAtom path dp st1 = (r, st1)"
  by (auto simp: getFolderAtom_def Let_def js_get_def split: js_prop.splits option.splits if_splits)

lemma getFileAtom_again:
  "getFileAtom path st = (r, st1) \<Longrightarrow> getFileAtom path st1 = (r, st1)"
  by (auto simp: getFileAtom_def Let_def js_get_def split: js_prop.splits option.splits if_splits)

lemma onUnmount_timers: "timers (onUnmount a i st) = (timers st)(i := None)"
  by (simp add: onUnmount_def Let_def split: atom_read.splits)

lemma subscribe_timers_500:
  assumes "\<forall>i k. timers st i = Some k \<longrightarrow> delay k = 500"
  shows "\<forall>i k. timers (subscribe a st) i = Some k \<longrightarrow> delay k = 500"
proof (cases "mounted st (atom_id a)")
  case None
  with assms show ?thesis by (auto simp: subscribe_first)
next
  case (Some m)
  then obtain n i where "mounted st (atom_id a) = Some (n, i)" by (cases m) auto
  with assms show ?thesis by (simp add: subscribe_more)
qed

lemma unsubscribe_timers_500:
  assumes "\<forall>i k. timers st i = Some k \<longrightarrow> delay k = 500"
  shows "\<forall>i k. timers (unsubscribe a st) i = Some k \<longrightarrow> delay k = 500"
  using assms
  by (auto simp: unsubscribe_def onUnmount_timers split: option.splits if_splits)

lemma live_step_timers_500:
  assumes "\<forall>i k. timers st i = Some k \<longrightarrow> delay k = 500"
  shows "\<forall>i k. timers (live_step ev st) i = Some k \<longrightarrow> delay k = 500"
proof (cases ev)
  case (GetFolderAtom p dp)
  with assms show ?thesis by (simp add: getFolderAtom_timers)
next
  case (GetFileAtom p)
  with assms show ?thesis by (simp add: getFileAtom_timers)
next
  case (Subscribe a)
  with subscribe_timers_500 [OF assms] show ?thesis by simp
next
  case (Unsubscribe a)
  with unsubscribe_timers_500 [OF assms] show ?thesis by simp
qed

lemma live_run_timers_500:
  "\<forall>i k. timers st i = Some k \<longrightarrow> delay k = 500 \<Longrightarrow>
   \<forall>i k. timers (live_run evs st) i = Some k \<longrightarrow> delay k = 500"
  unfolding live_run_def
proof (induction evs arbitrary: st)
  case Nil
  then show ?case by simp
next
  case (Cons ev evs)
  from live_step_timers_500 [OF Cons.prems] have
    "\<forall>i k. timers (live_step ev st) i = Some k \<longrightarrow> delay k = 500" .
  from Cons.IH [OF this] show ?case by simp
qed

lemma subscription_rounds:
  assumes "mounted st (atom_id a) = None"
  shows "subscribe a (subscribe a st)
     = st\<lparr>timers := (timers st)(next_timer st \<mapsto> \<lparr>delay = 500, refreshes = atom_id a\<rparr>),
          next_timer := Suc (next_timer st),
          mounted := (mounted st)(atom_id a \<mapsto> (2, next_timer st))\<rparr>"
    and "unsubscribe a (subscribe a (subscribe a st)) = subscribe a st"
    and "unsubscribe a (unsubscribe a (subscribe a (subscribe a st)))
     = onUnmount a (next_timer st)
         (st\<lparr>timers := (timers st)(next_timer st \<mapsto> \<lparr>delay = 500, refreshes = atom_id a\<rparr>),
             next_timer := Suc (next_timer st)\<rparr>)"
proof -
  define X1 where "X1 = st\<lparr>timers := (timers st)(next_timer st \<mapsto> \<lparr>delay = 500, refreshes = atom_id a\<rparr>),
          next_timer := Suc (next_timer st)\<rparr>"
  define X2 where "X2 = X1\<lparr>mounted := (mounted st)(atom_id a \<mapsto> (1, next_timer st))\<rparr>"
  define X3 where "X3 = X1\<lparr>mounted := (mounted st)(atom_id a \<mapsto> (2, next_timer st))\<rparr>"
  have s2: "subscribe a st = X2"
    using assms by (simp add: subscribe_first X2_def X1_def)
  have m2: "mounted X2 (atom_id a) = Some (1, next_timer st)"
    by (simp add: X2_def)
  have s3: "subscribe a X2 = X3"
    by (simp add: subscribe_more [OF m2]) (simp add: X2_def X3_def numeral_2_eq_2)
  have m3: "mounted X3 (atom_id a) = Some (2, next_timer st)"
    by (simp add: X3_def)
  have "unsubscribe a X3 = X3\<lparr>mounted := (mounted X3)(atom_id a \<mapsto> (2 - 1, next_timer st))\<rparr>"
    using m3 by (rule unsubscribe_more) simp
  then have u3: "unsubscribe a X3 = X2"
    by (simp add: X2_def X3_def)
  have "unsubscribe a X2
      = onUnmount a (next_timer st) (X2\<lparr>mounted := (mounted X2)(atom_id a := None)\<rparr>)"
    using m2 by (rule unsubscribe_last) simp
  moreover have "X2\<lparr>mounted := (mounted X2)(atom_id a := None)\<rparr> = X1"
    using assms by (simp add: X2_def X1_def fun_upd_idem)
  ultimately have u2: "unsubscribe a X2 = onUnmount a (next_timer st) X1" by simp
  show "subscribe a (subscribe a st)
     = st\<lparr>timers := (timers st)(next_timer st \<mapsto> \<lparr>delay = 500, refreshes = atom_id a\<rparr>),
          next_timer := Suc (next_timer st),
          mounted := (mounted st)(atom_id a \<mapsto> (2, next_timer st))\<rparr>"
    by (simp add: s2 s3) (simp add: X3_def X1_def)
  show "unsubscribe a (subscribe a (subscribe a st)) = subscribe a st"
    by (simp add: s2 s3 u3)
  show "unsubscribe a (unsubscribe a (subscribe a (subscribe a st)))
     = onUnmount a (next_timer st)
         (st\<lparr>timers := (timers st)(next_timer st \<mapsto> \<lparr>delay = 500, refreshes = atom_id a\<rparr>),
             next_timer := Suc (next_timer st)\<rparr>)"
    by (simp add: s2 s3 u3 u2) (simp add: X1_def)
qed

lemma created_folder_atom:
  assumes "js_get (if dp = Shallow then shallowAtoms st else deepAtoms st) path = Undefined"
  shows "getFolderAtom path dp st
     = (Own \<lparr>atom_id = next_atom st, atom_read = ReadFolder path dp\<rparr>,
        (if dp = Shallow
         then st\<lparr>shallowAtoms := (shallowAtoms st)
                   (path \<mapsto> \<lparr>atom_id = next_atom st, atom_read = ReadFolder path dp\<rparr>)\<rparr>
         else st\<lparr>deepAtoms := (deepAtoms st)
                   (path \<mapsto> \<lparr>atom_id = next_atom st, atom_read = ReadFolder path dp\<rparr>)\<rparr>)
        \<lparr>next_atom := Suc (next_atom st)\<rparr>)"
  using assms by (simp add: getFolderAtom_def Let_def)

lemma created_file_atom:
  assumes "js_get (fileAtoms st) path = Undefined"
  shows "getFileAtom path st
     = (Own \<lparr>atom_id = next_atom st, atom_read = ReadFile path\<rparr>,
        st\<lparr>fileAtoms := (fileAtoms st)
               (path \<mapsto> \<lparr>atom_id = next_atom st, atom_read = ReadFile path\<rparr>),
           next_atom := Suc (next_atom st)\<rparr>)"
  using assms by (simp add: getFileAtom_def Let_def)

lemma js_get_Undefined: "js_get m k = Undefined \<longleftrightarrow> m k = None \<and> k \<notin> set object_prototype_keys"
  by (simp add: js_get_def split: option.splits)

lemma ids_fresh_unmounted:
  assumes "ids_fresh st"
  shows "mounted st (next_atom st) = None"
proof (cases "mounted st (next_atom st)")
  case None
  then show ?thesis .
next
  case (Some m)
  from assms have "\<forall>i m. mounted st i = Some m \<longrightarrow> i < next_atom st"
    by (simp add: ids_fresh_def)
  then have "mounted st (next_atom st) = Some m \<longrightarrow> next_atom st < next_atom st"
    by (elim allE)
  with Some show ?thesis by simp
qed

lemma ids_fresh_timer:
  assumes "ids_fresh st" and "timers st i = Some k"
  shows "i < next_timer st \<and> refreshes k < next_atom st"
proof -
  from assms(1)
  have "\<forall>i k. timers st i = Some k \<longrightarrow> i < next_timer st \<and> refreshes k < next_atom st"
    by (simp add: ids_fresh_def)
  then have "timers st i = Some k \<longrightarrow> i < next_timer st \<and> refreshes k < next_atom st"
    by (elim allE)
  with assms(2) show ?thesis by simp
qed

lemma ids_fresh_no_timer:
  assumes "ids_fresh st"
  shows "timers st (next_timer st) = None"
proof (cases "timers st (next_timer st)")
  case None
  then show ?thesis .
next
  case (Some k)
  from ids_fresh_timer [OF assms Some] show ?thesis by simp
qed

lemma ids_fresh_other_atoms:
  assumes "ids_fresh st"
  shows "\<forall>i k. timers st i = Some k \<longrightarrow> refreshes k \<noteq> next_atom st"
proof (intro allI impI)
  fix i k assume "timers st i = Some k"
  from ids_fresh_timer [OF assms this] show "refreshes k \<noteq> next_atom st" by simp
qed

lemma timers_of_rounds:
  assumes m: "mounted st (atom_id a) = None"
    and t: "timers st (next_timer st) = None"
    and o: "\<forall>i k. timers st i = Some k \<longrightarrow> refreshes k \<noteq> atom_id a"
  shows "{i. \<exists>k. timers (subscribe a (subscribe a st)) i = Some k \<and> refreshes k = atom_id a}
           = {next_timer st}"
    and "timers (subscribe a (subscribe a st)) = timers (subscribe a st)"
    and "timers (unsubscribe a (subscribe a (subscribe a st)))
           = timers (subscribe a (subscribe a st))"
    and "timers (unsubscribe a (unsubscribe a (subscribe a (subscribe a st)))) = timers st"
proof -
  have t3: "timers (subscribe a (subscribe a st))
      = (timers st)(next_timer st \<mapsto> \<lparr>delay = 500, refreshes = atom_id a\<rparr>)"
    by (simp add: subscription_rounds(1) [OF m])
  have t2: "timers (subscribe a st)
      = (timers st)(next_timer st \<mapsto> \<lparr>delay = 500, refreshes = atom_id a\<rparr>)"
    by (simp add: subscribe_first [OF m])
  show "{i. \<exists>k. timers (subscribe a (subscribe a st)) i = Some k \<and> refreshes k = atom_id a}
           = {next_timer st}"
    unfolding t3 using o by auto
  show "timers (subscribe a (subscribe a st)) = timers (subscribe a st)"
    by (simp only: t3 t2)
  show "timers (unsubscribe a (subscribe a (subscribe a st)))
           = timers (subscribe a (subscribe a st))"
    by (simp only: subscription_rounds(2) [OF m] t3 t2)
  show "timers (unsubscribe a (unsubscribe a (subscribe a (subscribe a st)))) = timers st"
    using t by (simp add: subscription_rounds(3) [OF m] onUnmount_timers fun_upd_idem)
qed

lemma folder_atom_rounds:
  assumes f: "ids_fresh st"
    and u: "js_get (if dp = Shallow then shallowAtoms st else deepAtoms st) path = Undefined"
  defines "a \<equiv> \<lparr>atom_id = next_atom st, atom_read = ReadFolder path dp\<rparr>"
  defines "st1 \<equiv> snd (getFolderAtom path dp st)"
  defines "st3 \<equiv> subscribe a (subscribe a st1)"
  defines "st5 \<equiv> unsubscribe a (unsubscribe a st3)"
  shows "getFolderAtom path dp st = (Own a, st1)"
    and "getFolderAtom path dp st1 = (Own a, st1)"
    and "getFolderAtom path dp st3 = (Own a, st3)"
    and "{i. \<exists>k. timers st3 i = Some k \<and> refreshes k = atom_id a} = {next_timer st}"
    and "timers st3 = timers (subscribe a st1)"
    and "timers (unsubscribe a st3) = timers st3"
    and "timers st5 = timers st"
    and "(if dp = Shallow then shallowAtoms st5 else deepAtoms st5) path = None"
    and "fst (getFolderAtom path dp st5)
           = Own \<lparr>atom_id = Suc (next_atom st), atom_read = ReadFolder path dp\<rparr>"
proof -
  note c = created_folder_atom [OF u]
  from u have none: "(if dp = Shallow then shallowAtoms st else deepAtoms st) path = None"
    and notinh: "path \<notin> set object_prototype_keys"
    by (simp_all add: js_get_Undefined)
  show g0: "getFolderAtom path dp st = (Own a, st1)"
    by (simp add: c a_def st1_def)
  then show g1: "getFolderAtom path dp st1 = (Own a, st1)"
    by (rule getFolderAtom_again)
  have st1: "mounted st1 = mounted st" "timers st1 = timers st" "next_timer st1 = next_timer st"
    "next_atom st1 = Suc (next_atom st)"
    "(if dp = Shallow then shallowAtoms st1 else deepAtoms st1) path = Some a"
    using u by (cases dp; simp add: st1_def a_def getFolderAtom_def Let_def)+
  have m: "mounted st1 (atom_id a) = None"
    using ids_fresh_unmounted [OF f] by (simp add: st1 a_def)
  have t: "timers st1 (next_timer st1) = None"
    using ids_fresh_no_timer [OF f] by (simp add: st1)
  have o: "\<forall>i k. timers st1 i = Some k \<longrightarrow> refreshes k \<noteq> atom_id a"
    using ids_fresh_other_atoms [OF f] by (simp add: st1(2) a_def)
  note r = timers_of_rounds [OF m t o]
  have st3: "(if dp = Shallow then shallowAtoms st3 else deepAtoms st3) path = Some a"
    using st1(5) by (cases dp; simp add: st3_def subscription_rounds(1) [OF m])
  show "getFolderAtom path dp st3 = (Own a, st3)"
    using st3 by (cases dp; simp add: getFolderAtom_def js_get_def)
  show "{i. \<exists>k. timers st3 i = Some k \<and> refreshes k = atom_id a} = {next_timer st}"
    using r(1) by (simp add: st3_def st1)
  show "timers st3 = timers (subscribe a st1)"
    using r(2) by (simp add: st3_def)
  show "timers (unsubscribe a st3) = timers st3"
    using r(3) by (simp add: st3_def)
  show "timers st5 = timers st"
    using r(4) by (simp add: st5_def st3_def st1)
  have st5: "st5 = onUnmount a (next_timer st1)
         (st1\<lparr>timers := (timers st1)(next_timer st1 \<mapsto> \<lparr>delay = 500, refreshes = atom_id a\<rparr>),
             next_timer := Suc (next_timer st1)\<rparr>)"
    by (simp add: st5_def st3_def subscription_rounds(3) [OF m])
  show gone: "(if dp = Shallow then shallowAtoms st5 else deepAtoms st5) path = None"
    by (cases dp; simp add: st5 onUnmount_def a_def)
  have n5: "next_atom st5 = Suc (next_atom st)"
    by (cases dp; simp add: st5 onUnmount_def a_def st1)
  from gone notinh
  have "js_get (if dp = Shallow then shallowAtoms st5 else deepAtoms st5) path = Undefined"
    by (simp add: js_get_Undefined)
  from created_folder_atom [OF this]
  show "fst (getFolderAtom path dp st5)
           = Own \<lparr>atom_id = Suc (next_atom st), atom_read = ReadFolder path dp\<rparr>"
    by (simp add: n5)
qed

lemma file_atom_rounds:
  assumes f: "ids_fresh st"
    and u: "js_get (fileAtoms st) path = Undefined"
  defines "a \<equiv> \<lparr>atom_id = next_atom st, atom_read = ReadFile path\<rparr>"
  defines "st1 \<equiv> snd (getFileAtom path st)"
  defines "st3 \<equiv> subscribe a (subscribe a st1)"
  defines "st5 \<equiv> unsubscribe a (unsubscribe a st3)"
  shows "getFileAtom path st = (Own a, st1)"
    and "getFileAtom path st1 = (Own a, st1)"
    and "getFileAtom path st3 = (Own a, st3)"
    and "{i. \<exists>k. timers st3 i = Some k \<and> refreshes k = atom_id a} = {next_timer st}"
    and "timers st3 = timers (subscribe a st1)"
    and "timers (unsubscribe a st3) = timers st3"
    and "timers st5 = timers st"
    and "fileAtoms st5 path = None"
    and "fst (getFileAtom path st5)
           = Own \<lparr>atom_id = Suc (next_atom st), atom_read = ReadFile path\<rparr>"
proof -
  note c = created_file_atom [OF u]
  from u have none: "fileAtoms st path = None"
    and notinh: "path \<notin> set object_prototype_keys"
    by (simp_all add: js_get_Undefined)
  show g0: "getFileAtom path st = (Own a, st1)"
    by (simp add: c a_def st1_def)
  then show g1: "getFileAtom path st1 = (Own a, st1)"
    by (rule getFileAtom_again)
  have st1: "mounted st1 = mounted st" "timers st1 = timers st" "next_timer st1 = next_timer st"
    "next_atom st1 = Suc (next_atom st)"
    "fileAtoms st1 path = Some a"
    by (simp_all add: st1_def c a_def)
  have m: "mounted st1 (atom_id a) = None"
    using ids_fresh_unmounted [OF f] by (simp add: st1 a_def)
  have t: "timers st1 (next_timer st1) = None"
    using ids_fresh_no_timer [OF f] by (simp add: st1)
  have o: "\<forall>i k. timers st1 i = Some k \<longrightarrow> refreshes k \<noteq> atom_id a"
    using ids_fresh_other_atoms [OF f] by (simp add: st1(2) a_def)
  note r = timers_of_rounds [OF m t o]
  have st3: "fileAtoms st3 path = Some a"
    using st1(5) by (simp add: st3_def subscription_rounds(1) [OF m])
  show "getFileAtom path st3 = (Own a, st3)"
    using st3 by (simp add: getFileAtom_def js_get_def)
  show "{i. \<exists>k. timers st3 i = Some k \<and> refreshes k = atom_id a} = {next_timer st}"
    using r(1) by (simp add: st3_def st1)
  show "timers st3 = timers (subscribe a st1)"
    using r(2) by (simp add: st3_def)
  show "timers (unsubscribe a st3) = timers st3"
    using r(3) by (simp add: st3_def)
  show "timers st5 = timers st"
    using r(4) by (simp add: st5_def st3_def st1)
  have st5: "st5 = onUnmount a (next_timer st1)
         (st1\<lparr>timers := (timers st1)(next_timer st1 \<mapsto> \<lparr>delay = 500, refreshes = atom_id a\<rparr>),
             next_timer := Suc (next_timer st1)\<rparr>)"
    by (simp add: st5_def st3_def subscription_rounds(3) [OF m])
  show gone: "fileAtoms st5 path = None"
    by (simp add: st5 onUnmount_def a_def)
  have n5: "next_atom st5 = Suc (next_atom st)"
    by (simp add: st5 onUnmount_def a_def st1)
  from gone notinh have "js_get (fileAtoms st5) path = Undefined"
    by (simp add: js_get_Undefined)
  from created_file_atom [OF this]
  show "fst (getFileAtom path st5)
           = Own \<lparr>atom_id = Suc (next_atom st), atom_read = ReadFile path\<rparr>"
    by (simp add: n5)
qed

lemma init_fresh: "ids_fresh init_live"
  by (simp add: ids_fresh_def init_live_def)

lemma init_no_docs: "js_get (if Shallow = Shallow then shallowAtoms init_live else deepAtoms init_live) ''/docs'' = Undefined"
  by (simp add: js_get_def init_live_def object_prototype_keys_def)

lemma onUnmount_entry: "entry_of (atom_read a) (onUnmount a i st) = None"
  by (cases "atom_read a") (simp_all add: entry_of_def onUnmount_def)

lemma last_unsubscribe:
  assumes "mounted st (atom_id b) = Some (n, i)" and "n \<le> 1"
  shows "timers (unsubscribe b st) = (timers st)(i := None)"
    and "entry_of (atom_read b) (unsubscribe b st) = None"
  using assms by (simp_all add: unsubscribe_last onUnmount_timers onUnmount_entry)

lemma other_unsubscribe:
  assumes "mounted st (atom_id b) = Some (n, i)" and "1 < n"
  shows "timers (unsubscribe b st) = timers st"
    and "entry_of key (unsubscribe b st) = entry_of key st"
  using assms by (simp_all add: unsubscribe_more entry_of_def split: atom_read.splits)

lemma further_subscribe:
  assumes "mounted st (atom_id b) = Some (n, i)"
  shows "timers (subscribe b st) = timers st"
    and "entry_of key (subscribe b st) = entry_of key st"
  using assms by (simp_all add: subscribe_more entry_of_def split: atom_read.splits)

text \<open>
  What holds of the live-view cache. A second call of \<^verbatim>\<open>getFolderAtom\<close> or
  \<^verbatim>\<open>getFileAtom\<close> with the same key returns the entry the first call returned and
  changes nothing. In any state, a further subscriber of a mounted atom starts no
  interval, a subscriber that leaves other subscribers behind clears none, and the last
  subscriber to leave clears the atom's interval and removes the entry of the atom's
  key from its map. Starting where identifiers are fresh and a key has no entry yet:
  the first call creates the entry; two subscriptions to it run exactly one interval
  for it (the second starts none) and calls with the same key keep returning the same
  entry; when one subscriber leaves the interval keeps running; when the last one
  leaves the interval is cleared, the key has no entry in its map any more, and the
  next call with the same key creates a new atom.
\<close>

theorem live_view_shared_entry:
  "(\<forall>r st'. getFolderAtom path dp st = (r, st') \<longrightarrow> getFolderAtom path dp st' = (r, st'))
   \<and> (\<forall>r st'. getFileAtom path st = (r, st') \<longrightarrow> getFileAtom path st' = (r, st'))
   \<and> (\<forall>n i. mounted st (atom_id b) = Some (n, i) \<longrightarrow>
          timers (subscribe b st) = timers st
          \<and> entry_of (atom_read b) (subscribe b st) = entry_of (atom_read b) st)
   \<and> (\<forall>n i. mounted st (atom_id b) = Some (n, i) \<and> 1 < n \<longrightarrow>
          timers (unsubscribe b st) = timers st
          \<and> entry_of (atom_read b) (unsubscribe b st) = entry_of (atom_read b) st)
   \<and> (\<forall>n i. mounted st (atom_id b) = Some (n, i) \<and> n \<le> 1 \<longrightarrow>
          timers (unsubscribe b st) = (timers st)(i := None)
          \<and> entry_of (atom_read b) (unsubscribe b st) = None)
   \<and> (ids_fresh st \<longrightarrow>
        js_get (if dp = Shallow then shallowAtoms st else deepAtoms st) path = Undefined \<longrightarrow>
        (let a = \<lparr>atom_id = next_atom st, atom_read = ReadFolder path dp\<rparr>;
             st1 = snd (getFolderAtom path dp st);
             st3 = subscribe a (subscribe a st1);
             st5 = unsubscribe a (unsubscribe a st3)
         in getFolderAtom path dp st = (Own a, st1)
            \<and> getFolderAtom path dp st3 = (Own a, st3)
            \<and> {i. \<exists>k. timers st3 i = Some k \<and> refreshes k = atom_id a} = {next_timer st}
            \<and> timers st3 = timers (subscribe a st1)
            \<and> timers (unsubscribe a st3) = timers st3
            \<and> timers st5 = timers st
            \<and> (if dp = Shallow then shallowAtoms st5 else deepAtoms st5) path = None
            \<and> fst (getFolderAtom path dp st5)
                 = Own \<lparr>atom_id = Suc (next_atom st), atom_read = ReadFolder path dp\<rparr>))
   \<and> (ids_fresh st \<longrightarrow> js_get (fileAtoms st) path = Undefined \<longrightarrow>
        (let a = \<lparr>atom_id = next_atom st, atom_read = ReadFile path\<rparr>;
             st1 = snd (getFileAtom path st);
             st3 = subscribe a (subscribe a st1);
             st5 = unsubscribe a (unsubscribe a st3)
         in getFileAtom path st = (Own a, st1)
            \<and> getFileAtom path st3 = (Own a, st3)
            \<and> {i. \<exists>k. timers st3 i = Some k \<and> refreshes k = atom_id a} = {next_timer st}
            \<and> timers st3 = timers (subscribe a st1)
            \<and> timers (unsubscribe a st3) = timers st3
            \<and> timers st5 = timers st
            \<and> fileAtoms st5 path = None
            \<and> fst (getFileAtom path st5)
                 = Own \<lparr>atom_id = Suc (next_atom st), atom_read = ReadFile path\<rparr>))"
proof (intro conjI impI allI)
  fix r st' assume "getFolderAtom path dp st = (r, st')"
  then show "getFolderAtom path dp st' = (r, st')" by (rule getFolderAtom_again)
next
  fix r st' assume "getFileAtom path st = (r, st')"
  then show "getFileAtom path st' = (r, st')" by (rule getFileAtom_again)
next
  fix n i assume "mounted st (atom_id b) = Some (n, i)"
  then show "timers (subscribe b st) = timers st" by (rule further_subscribe)
next
  fix n i assume "mounted st (atom_id b) = Some (n, i)"
  then show "entry_of (atom_read b) (subscribe b st) = entry_of (atom_read b) st"
    by (rule further_subscribe)
next
  fix n i assume "mounted st (atom_id b) = Some (n, i) \<and> 1 < n"
  then show "timers (unsubscribe b st) = timers st"
    by (elim conjE) (rule other_unsubscribe)
next
  fix n i assume "mounted st (atom_id b) = Some (n, i) \<and> 1 < n"
  then show "entry_of (atom_read b) (unsubscribe b st) = entry_of (atom_read b) st"
    by (elim conjE) (rule other_unsubscribe)
next
  fix n i assume "mounted st (atom_id b) = Some (n, i) \<and> n \<le> 1"
  then show "timers (unsubscribe b st) = (timers st)(i := None)"
    by (elim conjE) (rule last_unsubscribe)
next
  fix n i assume "mounted st (atom_id b) = Some (n, i) \<and> n \<le> 1"
  then show "entry_of (atom_read b) (unsubscribe b st) = None"
    by (elim conjE) (rule last_unsubscribe)
next
  assume f: "ids_fresh st"
    and u: "js_get (if dp = Shallow then shallowAtoms st else deepAtoms st) path = Undefined"
  note r = folder_atom_rounds [OF f u]
  show "let a = \<lparr>atom_id = next_atom st, atom_read = ReadFolder path dp\<rparr>;
             st1 = snd (getFolderAtom path dp st);
             st3 = subscribe a (subscribe a st1);
             st5 = unsubscribe a (unsubscribe a st3)
         in getFolderAtom path dp st = (Own a, st1)
            \<and> getFolderAtom path dp st3 = (Own a, st3)
            \<and> {i. \<exists>k. timers st3 i = Some k \<and> refreshes k = atom_id a} = {next_timer st}
            \<and> timers st3 = timers (subscribe a st1)
            \<and> timers (unsubscribe a st3) = timers st3
            \<and> timers st5 = timers st
            \<and> (if dp = Shallow then shallowAtoms st5 else deepAtoms st5) path = None
            \<and> fst (getFolderAtom path dp st5)
                 = Own \<lparr>atom_id = Suc (next_atom st), atom_read = ReadFolder path dp\<rparr>"
    unfolding Let_def
    by (intro conjI) (rule r(1) r(3) r(4) r(5) r(6) r(7) r(8) r(9))+
next
  assume f: "ids_fresh st" and u: "js_get (fileAtoms st) path = Undefined"
  note r = file_atom_rounds [OF f u]
  show "let a = \<lparr>atom_id = next_atom st, atom_read = ReadFile path\<rparr>;
             st1 = snd (getFileAtom path st);
             st3 = subscribe a (subscribe a st1);
             st5 = unsubscribe a (unsubscribe a st3)
         in getFileAtom path st = (Own a, st1)
            \<and> getFileAtom path st3 = (Own a, st3)
            \<and> {i. \<exists>k. timers st3 i = Some k \<and> refreshes k = atom_id a} = {next_timer st}
            \<and> timers st3 = timers (subscribe a st1)
            \<and> timers (unsubscribe a st3) = timers st3
            \<and> timers st5 = timers st
            \<and> fileAtoms st5 path = None
            \<and> fst (getFileAtom path st5)
                 = Own \<lparr>atom_id = Suc (next_atom st), atom_read = ReadFile path\<rparr>"
    unfolding Let_def
    by (intro conjI) (rule r(1) r(3) r(4) r(5) r(6) r(7) r(8) r(9))+
qed

text \<open>The theorem for the shallow view of \<^verbatim>\<open>/docs\<close> on a fresh manager.\<close>

theorem live_view_shared_entry_witness:
  "ids_fresh init_live
   \<and> js_get (shallowAtoms init_live) ''/docs'' = Undefined
   \<and> fst (getFolderAtom ''/docs'' Shallow init_live) = Own docs_atom
   \<and> fst (getFolderAtom ''/docs'' Shallow (snd (getFolderAtom ''/docs'' Shallow init_live)))
       = Own docs_atom
   \<and> timers (unsubscribe docs_atom (unsubscribe docs_atom (subscribe docs_atom
        (subscribe docs_atom (snd (getFolderAtom ''/docs'' Shallow init_live))))))
       = timers init_live
   \<and> fst (getFolderAtom ''/docs'' Shallow
        (unsubscribe docs_atom (unsubscribe docs_atom (subscribe docs_atom
          (subscribe docs_atom (snd (getFolderAtom ''/docs'' Shallow init_live)))))))
       = Own \<lparr>atom_id = 1, atom_read = ReadFolder ''/docs'' Shallow\<rparr>"
proof -
  have n: "next_atom init_live = 0" by (simp add: init_live_def)
  from live_view_shared_entry [of "''/docs''" Shallow init_live docs_atom]
  have "ids_fresh init_live \<longrightarrow>
        js_get (if Shallow = Shallow then shallowAtoms init_live else deepAtoms init_live)
          ''/docs'' = Undefined \<longrightarrow>
        (let a = \<lparr>atom_id = next_atom init_live, atom_read = ReadFolder ''/docs'' Shallow\<rparr>;
             st1 = snd (getFolderAtom ''/docs'' Shallow init_live);
             st3 = subscribe a (subscribe a st1);
             st5 = unsubscribe a (unsubscribe a st3)
         in getFolderAtom ''/docs'' Shallow init_live = (Own a, st1)
            \<and> getFolderAtom ''/docs'' Shallow st3 = (Own a, st3)
            \<and> {i. \<exists>k. timers st3 i = Some k \<and> refreshes k = atom_id a} = {next_timer init_live}
            \<and> timers st3 = timers (subscribe a st1)
            \<and> timers (unsubscribe a st3) = timers st3
            \<and> timers st5 = timers init_live
            \<and> (if Shallow = Shallow then shallowAtoms st5 else deepAtoms st5) ''/docs'' = None
            \<and> fst (getFolderAtom ''/docs'' Shallow st5)
                 = Own \<lparr>atom_id = Suc (next_atom init_live), atom_read = ReadFolder ''/docs'' Shallow\<rparr>)"
    by (elim conjE)
  with init_fresh init_no_docs
  have "let a = \<lparr>atom_id = next_atom init_live, atom_read = ReadFolder ''/docs'' Shallow\<rparr>;
             st1 = snd (getFolderAtom ''/docs'' Shallow init_live);
             st3 = subscribe a (subscribe a st1);
             st5 = unsubscribe a (unsubscribe a st3)
         in getFolderAtom ''/docs'' Shallow init_live = (Own a, st1)
            \<and> getFolderAtom ''/docs'' Shallow st3 = (Own a, st3)
            \<and> {i. \<exists>k. timers st3 i = Some k \<and> refreshes k = atom_id a} = {next_timer init_live}
            \<and> timers st3 = timers (subscribe a st1)
            \<and> timers (unsubscribe a st3) = timers st3
            \<and> timers st5 = timers init_live
            \<and> (if Shallow = Shallow then shallowAtoms st5 else deepAtoms st5) ''/docs'' = None
            \<and> fst (getFolderAtom ''/docs'' Shallow st5)
                 = Own \<lparr>atom_id = Suc (next_atom init_live), atom_read = ReadFolder ''/docs'' Shallow\<rparr>"
    by (elim impE)
  note big = this [unfolded Let_def n docs_atom_def [symmetric]]
  from big have s: "getFolderAtom ''/docs'' Shallow init_live
                = (Own docs_atom, snd (getFolderAtom ''/docs'' Shallow init_live))"
    by (elim conjE)
  from big have t: "timers (unsubscribe docs_atom (unsubscribe docs_atom (subscribe docs_atom
        (subscribe docs_atom (snd (getFolderAtom ''/docs'' Shallow init_live))))))
       = timers init_live"
    by (elim conjE)
  from big have f: "fst (getFolderAtom ''/docs'' Shallow
        (unsubscribe docs_atom (unsubscribe docs_atom (subscribe docs_atom
          (subscribe docs_atom (snd (getFolderAtom ''/docs'' Shallow init_live)))))))
       = Own \<lparr>atom_id = Suc 0, atom_read = ReadFolder ''/docs'' Shallow\<rparr>"
    by (elim conjE)
  from s have s1: "fst (getFolderAtom ''/docs'' Shallow init_live) = Own docs_atom"
    by (metis fst_conv)
  from getFolderAtom_again [OF s]
  have s2: "fst (getFolderAtom ''/docs'' Shallow (snd (getFolderAtom ''/docs'' Shallow init_live)))
       = Own docs_atom" by (metis fst_conv)
  from init_fresh init_no_docs s1 s2 t f show ?thesis by simp
qed

lemma live_simps:
  "live_run [] st = st"
  "live_run (ev # evs) st = live_run evs (live_step ev st)"
  by (simp_all add: live_run_def)

text \<open>
  C5: for a fixed path and depth, all subscribers are to share one entry and one
  refresh interval. The run \<open>kept_atom_run\<close> breaks this. Its first two calls return
  the same atom; the first subscriber leaves, which clears the interval and deletes the
  entry; the second consumer then subscribes the atom it was given, which starts a new
  interval for an atom that is no longer in the map; the third call finds no entry and
  creates another atom for the same key. At the end two atoms that read the shallow
  folder \<^verbatim>\<open>/docs\<close> are mounted, each with one subscriber and an interval of its own.
\<close>

theorem kept_atom_second_timer:
  "atom_read docs_atom = ReadFolder ''/docs'' Shallow
   \<and> atom_read later_docs_atom = ReadFolder ''/docs'' Shallow
   \<and> atom_id docs_atom \<noteq> atom_id later_docs_atom
   \<and> fst (getFolderAtom ''/docs'' Shallow init_live) = Own docs_atom
   \<and> fst (getFolderAtom ''/docs'' Shallow (live_run (take 2 kept_atom_run) init_live))
       = Own docs_atom
   \<and> fst (getFolderAtom ''/docs'' Shallow (live_run (take 5 kept_atom_run) init_live))
       = Own later_docs_atom
   \<and> mounted (live_run kept_atom_run init_live) (atom_id docs_atom) = Some (1, 1)
   \<and> mounted (live_run kept_atom_run init_live) (atom_id later_docs_atom) = Some (1, 2)
   \<and> timers (live_run kept_atom_run init_live) 1
       = Some \<lparr>delay = 500, refreshes = atom_id docs_atom\<rparr>
   \<and> timers (live_run kept_atom_run init_live) 2
       = Some \<lparr>delay = 500, refreshes = atom_id later_docs_atom\<rparr>"
  by (simp add: kept_atom_run_def live_simps getFolderAtom_def js_get_def init_live_def
      object_prototype_keys_def subscribe_def unsubscribe_def onMount_def onUnmount_def
      docs_atom_def later_docs_atom_def Let_def)

text \<open>
  C8. Whatever consumers do with the live-view interface of a fresh manager, every
  interval that is running has a delay of 500 milliseconds. An interval is started,
  with that delay, exactly when an atom, of a folder or of a file, gains its first
  subscriber; a further subscriber and the two functions that hand out atoms start
  none. The delay is a literal of the \<^verbatim>\<open>onMount\<close> handler: no operation takes it as
  an argument.
\<close>

theorem refresh_period_500:
  "(\<forall>i k. timers (live_run evs init_live) i = Some k \<longrightarrow> delay k = 500)
   \<and> (mounted st (atom_id a) = None \<longrightarrow>
        timers (subscribe a st)
          = (timers st)(next_timer st \<mapsto> \<lparr>delay = 500, refreshes = atom_id a\<rparr>))
   \<and> (mounted st (atom_id a) \<noteq> None \<longrightarrow> timers (subscribe a st) = timers st)
   \<and> timers (snd (getFolderAtom path dp st)) = timers st
   \<and> timers (snd (getFileAtom path st)) = timers st"
proof -
  have "\<forall>i k. timers init_live i = Some k \<longrightarrow> delay k = 500"
    by (simp add: init_live_def)
  then have a: "\<forall>i k. timers (live_run evs init_live) i = Some k \<longrightarrow> delay k = 500"
    by (rule live_run_timers_500)
  have b: "mounted st (atom_id a) \<noteq> None \<longrightarrow> timers (subscribe a st) = timers st"
    by (auto simp: subscribe_more)
  from a b show ?thesis
    by (simp add: subscribe_first getFolderAtom_timers getFileAtom_timers)
qed

text \<open>
  The theorem for a run that subscribes to a folder atom and a file atom: the interval
  of the file atom has delay 500, and so has the one a first subscription starts.
\<close>

theorem refresh_period_500_witness:
  "timers (live_run [GetFolderAtom ''/docs'' Shallow, Subscribe docs_atom,
                     GetFileAtom ''/docs/a.txt'', Subscribe file_atom, Subscribe docs_atom]
             init_live) 1
     = Some \<lparr>delay = 500, refreshes = 1\<rparr>
   \<and> delay \<lparr>delay = 500, refreshes = 1\<rparr> = 500
   \<and> mounted init_live (atom_id docs_atom) = None
   \<and> timers (subscribe docs_atom init_live) 0 = Some \<lparr>delay = 500, refreshes = 0\<rparr>"
proof -
  have a: "timers (live_run [GetFolderAtom ''/docs'' Shallow, Subscribe docs_atom,
                     GetFileAtom ''/docs/a.txt'', Subscribe file_atom, Subscribe docs_atom]
             init_live) 1
     = Some \<lparr>delay = 500, refreshes = 1\<rparr>"
    by (simp add: live_run_def getFolderAtom_def getFileAtom_def js_get_def init_live_def
        object_prototype_keys_def subscribe_def onMount_def docs_atom_def file_atom_def Let_def)
  have m: "mounted init_live (atom_id docs_atom) = None"
    by (simp add: init_live_def)
  have n: "next_timer init_live = 0" by (simp add: init_live_def)
  from refresh_period_500 [of "[GetFolderAtom ''/docs'' Shallow, Subscribe docs_atom,
                     GetFileAtom ''/docs/a.txt'', Subscribe file_atom, Subscribe docs_atom]"
      init_live docs_atom] a m n
  show ?thesis by (simp add: docs_atom_def)
qed

end
